theory Spec2Isabelle
  imports Main
begin

section \<open>The GRNVS transfer client (Transfer\_Protocol/assignment4.py)\<close>

text \<open>
  A shallow embedding of the client. Python \<open>bytes\<close> are lists of \<open>char\<close> (a
  \<open>char\<close> is one byte). A Python \<open>str\<close> is represented by the bytes of its UTF-8
  encoding, so that \<open>.encode()\<close> is the identity, \<open>len(s.encode())\<close> is the length
  of the list and \<open>.decode()\<close> is a validity check. Python integers are \<open>int\<close>.
\<close>

type_synonym bytes = string

subsection \<open>Built-ins of Python used by the client\<close>

definition digit_char :: "nat \<Rightarrow> char" where
  "digit_char d = char_of (48 + d)"

text \<open>
  \<open>str(n)\<close> for a non-negative integer: decimal, no leading zero, \<open>0\<close> for zero. The
  client applies it to lengths of byte sequences, to a port and to a number that \<open>int()\<close>
  has read, which all stay below the limit of digits that \<open>str()\<close> has in common with
  \<open>int()\<close>.
\<close>

fun str_of_nat :: "nat \<Rightarrow> string" where
  "str_of_nat n = (if n < 10 then [digit_char n] else str_of_nat (n div 10) @ [digit_char (n mod 10)])"

declare str_of_nat.simps [simp del]

definition str_of_int :: "int \<Rightarrow> string" where
  "str_of_int i = (if i < 0 then CHR ''-'' # str_of_nat (nat (- i)) else str_of_nat (nat i))"

definition is_digit :: "char \<Rightarrow> bool" where
  "is_digit c = (48 \<le> (of_char c :: nat) \<and> (of_char c :: nat) \<le> 57)"

definition digit_val :: "char \<Rightarrow> nat" where
  "digit_val c = of_char c - 48"

text \<open>C's \<open>isspace\<close> on ASCII, as \<open>int()\<close> uses it: tab, LF, VT, FF, CR and space.\<close>

definition is_space :: "char \<Rightarrow> bool" where
  "is_space c = ((9 \<le> (of_char c :: nat) \<and> (of_char c :: nat) \<le> 13) \<or> c = CHR '' '')"

fun double_underscore :: "string \<Rightarrow> bool" where
  "double_underscore (a # b # cs) = ((a = CHR ''_'' \<and> b = CHR ''_'') \<or> double_underscore (b # cs))"
| "double_underscore cs = False"

definition digits_value :: "string \<Rightarrow> nat" where
  "digits_value ds = fold (\<lambda>c v. 10 * v + digit_val c) ds 0"

text \<open>
  The interpreter converts between \<open>int\<close> and decimal text only up to a number of digits,
  \<open>sys.get_int_max_str_digits()\<close>. The client does not change it: it is the default.
\<close>

definition int_max_str_digits :: nat where
  "int_max_str_digits = 4300"

text \<open>
  \<open>int(b)\<close> on bytes, base 10: white space on both sides is skipped, one sign \<open>+\<close> or
  \<open>-\<close> is allowed, then at least one digit, with single underscores allowed between
  digits; leading zeros are allowed; more digits than \<open>int_max_str_digits\<close> (leading
  zeros counted, underscores not) are refused. \<open>None\<close> stands for \<open>ValueError\<close>.
\<close>

definition py_int :: "bytes \<Rightarrow> int option" where
  "py_int s =
     (let s1 = dropWhile is_space s;
          neg = (s1 \<noteq> [] \<and> hd s1 = CHR ''-'');
          s2 = (if s1 \<noteq> [] \<and> (hd s1 = CHR ''+'' \<or> hd s1 = CHR ''-'') then tl s1 else s1);
          body = takeWhile (\<lambda>c. is_digit c \<or> c = CHR ''_'') s2;
          rest = dropWhile (\<lambda>c. is_digit c \<or> c = CHR ''_'') s2
      in if body = [] \<or> hd body = CHR ''_'' \<or> last body = CHR ''_'' \<or> double_underscore body
            \<or> int_max_str_digits < length (filter is_digit body)
            \<or> \<not> list_all is_space rest
         then None
         else Some ((if neg then - 1 else 1) * int (digits_value (filter is_digit body))))"

text \<open>\<open>b.startswith(p)\<close>.\<close>

definition startswith :: "bytes \<Rightarrow> bytes \<Rightarrow> bool" where
  "startswith p b = (take (length p) b = p)"

text \<open>
  \<open>b.split(sep)\<close> with an explicit one-byte separator: cut at every separator; the result
  is never empty (\<open>b''.split(b' ') = [b'']\<close>).
\<close>

fun py_split :: "char \<Rightarrow> bytes \<Rightarrow> bytes list" where
  "py_split sep [] = [[]]"
| "py_split sep (c # cs) =
     (if c = sep then [] # py_split sep cs
      else (c # hd (py_split sep cs)) # tl (py_split sep cs))"

text \<open>\<open>b.split(sep, 1)\<close>: cut at the first separator only; one or two parts.\<close>

definition py_split1 :: "char \<Rightarrow> bytes \<Rightarrow> bytes list" where
  "py_split1 sep b =
     (if sep \<in> set b then [takeWhile (\<lambda>c. c \<noteq> sep) b, tl (dropWhile (\<lambda>c. c \<noteq> sep) b)]
      else [b])"

text \<open>
  Slices \<open>b[i:j]\<close>: a negative index counts from the end, and every index is clamped
  into \<open>0..len(b)\<close>; an empty range gives the empty sequence, never an exception.
\<close>

definition clamp_index :: "nat \<Rightarrow> int \<Rightarrow> nat" where
  "clamp_index n i = (if i < 0 then nat (max 0 (int n + i)) else min n (nat i))"

definition py_slice :: "'a list \<Rightarrow> int \<Rightarrow> int \<Rightarrow> 'a list" where
  "py_slice xs i j =
     (let a = clamp_index (length xs) i; b = clamp_index (length xs) j
      in take (b - a) (drop a xs))"

subsection \<open>Framing: \<open>string_to_netstring\<close> and the decoding part of \<open>inner\<close>\<close>

text \<open>
  \<^verbatim>\<open>
  def string_to_netstring(string: str) -> str:
      length = len(string.encode())
      return f'{length}:{string},'
  \<close>
  Every caller encodes the result at once, so the model gives the bytes on the wire.
\<close>

definition string_to_netstring :: "string \<Rightarrow> bytes" where
  "string_to_netstring string = str_of_nat (length string) @ '':'' @ string @ '',''"

text \<open>
  The four ways in which lines 86 to 99 of \<open>inner\<close> reject a buffer, named after the
  texts they put into the error: \<open>no colon\<close>, \<open>startswith 0 or +\<close>, \<open>invalid length\<close> and
  \<open>no comma\<close>. The last one covers a payload that is too short as well as a missing comma.
\<close>

datatype frame_error = NoColon | StartsWith0OrPlus | InvalidLength | NoComma

text \<open>
  Lines 86 to 102 of \<open>inner\<close>, the pure part: every \<open>send_error\<close> there leaves the
  function, so the checks are a chain. The result is the message and the new residual.
  \<^verbatim>\<open>
  try:
      length, data = netstrings.split(b':', 1)
  except ValueError:
      send_error(f'invalid netstring: {netstrings}, no colon', sock)
  if length.startswith(b'0') or length.startswith(b'+'):
      send_error(f'invalid netstring: {netstrings}, startswith 0 or +', sock)
  try:
      length = int(length)
  except ValueError:
      send_error(f'invalid netstring: {netstrings}, invalid length', sock)
  if len(data) < length + 1 or data[length:length + 1] != b',':
      send_error(f'invalid netstring: {netstrings}, no comma', sock)
  message = data[:length]
  netstrings = data[length + 1:] if len(data) > length + 1 else b''
  \<close>
\<close>

definition inner_decode :: "bytes \<Rightarrow> frame_error + bytes \<times> bytes" where
  "inner_decode netstrings =
     (case py_split1 CHR '':'' netstrings of
        [len, data] \<Rightarrow>
          if startswith ''0'' len \<or> startswith ''+'' len then Inl StartsWith0OrPlus
          else (case py_int len of
                  None \<Rightarrow> Inl InvalidLength
                | Some n \<Rightarrow>
                    if int (length data) < n + 1 \<or> py_slice data n (n + 1) \<noteq> '',''
                    then Inl NoComma
                    else Inr (py_slice data 0 n,
                              if int (length data) > n + 1
                              then py_slice data (n + 1) (int (length data)) else []))
      | _ \<Rightarrow> Inl NoColon)"

subsection \<open>More built-ins: UTF-8, \<open>repr\<close> of bytes, the pattern of \<open>string_to_int\<close>\<close>

definition is_cont :: "nat \<Rightarrow> bool" where
  "is_cont b = (128 \<le> b \<and> b \<le> 191)"

text \<open>
  \<open>b.decode()\<close> succeeds exactly on well-formed UTF-8: no stray continuation byte, no
  overlong form, no surrogate, nothing above U+10FFFF.
\<close>

fun utf8_ok :: "nat list \<Rightarrow> bool" where
  "utf8_ok [] = True"
| "utf8_ok (b # bs) =
     (if b < 128 then utf8_ok bs
      else if 194 \<le> b \<and> b \<le> 223 then
        (case bs of c1 # r \<Rightarrow> is_cont c1 \<and> utf8_ok r | _ \<Rightarrow> False)
      else if 224 \<le> b \<and> b \<le> 239 then
        (case bs of
           c1 # c2 # r \<Rightarrow>
             (if b = 224 then 160 \<le> c1 \<and> c1 \<le> 191
              else if b = 237 then 128 \<le> c1 \<and> c1 \<le> 159
              else is_cont c1) \<and> is_cont c2 \<and> utf8_ok r
         | _ \<Rightarrow> False)
      else if 240 \<le> b \<and> b \<le> 244 then
        (case bs of
           c1 # c2 # c3 # r \<Rightarrow>
             (if b = 240 then 144 \<le> c1 \<and> c1 \<le> 191
              else if b = 244 then 128 \<le> c1 \<and> c1 \<le> 143
              else is_cont c1) \<and> is_cont c2 \<and> is_cont c3 \<and> utf8_ok r
         | _ \<Rightarrow> False)
      else False)"

definition utf8_valid :: "bytes \<Rightarrow> bool" where
  "utf8_valid b = utf8_ok (map of_char b)"

text \<open>
  The characters of a \<open>str\<close>, each as the bytes of its encoding: a character starts at
  every byte that is not a continuation byte.
\<close>

function utf8_chars :: "string \<Rightarrow> string list" where
  "utf8_chars [] = []"
| "utf8_chars (c # cs) =
     (c # takeWhile (\<lambda>x. is_cont (of_char x)) cs) # utf8_chars (dropWhile (\<lambda>x. is_cont (of_char x)) cs)"
  by pat_completeness auto
termination
  by (relation "measure length") (auto simp: length_dropWhile_le less_Suc_eq_le)

text \<open>
  \<open>repr\<close> of bytes, which an f-string uses for a bytes value: \<open>b'...'\<close>, in double
  quotes when the bytes hold a single quote and no double quote; the quote and the
  backslash are escaped, tab, LF and CR are written \<open>\t\<close>, \<open>\n\<close>, \<open>\r\<close>, every other byte
  below 32 or from 127 on is written \<open>\xNN\<close>.
\<close>

definition hex_digit :: "nat \<Rightarrow> char" where
  "hex_digit n = ''0123456789abcdef'' ! n"

definition repr_byte :: "char \<Rightarrow> char \<Rightarrow> string" where
  "repr_byte q c =
     (if c = q \<or> c = CHR 0x5C then [CHR 0x5C, c]
      else if c = CHR 0x09 then [CHR 0x5C, CHR ''t'']
      else if c = CHR 0x0A then [CHR 0x5C, CHR ''n'']
      else if c = CHR 0x0D then [CHR 0x5C, CHR ''r'']
      else if (of_char c :: nat) < 32 \<or> 127 \<le> (of_char c :: nat)
        then [CHR 0x5C, CHR ''x'', hex_digit (of_char c div 16), hex_digit (of_char c mod 16)]
      else [c])"

definition bytes_repr :: "bytes \<Rightarrow> string" where
  "bytes_repr b =
     (let q = (if CHR 0x27 \<in> set b \<and> CHR 0x22 \<notin> set b then CHR 0x22 else CHR 0x27)
      in CHR ''b'' # q # concat (map (repr_byte q) b) @ [q])"

text \<open>
  Python's \<open>\d\<close> on a \<open>str\<close> and \<open>int()\<close> of a \<open>str\<close> know the decimal digits of every
  script, from one table of the interpreter. That table is the parameter \<open>uni\<close>: it
  gives, for a character outside ASCII (as the bytes of its encoding), the ASCII digit
  that \<open>int()\<close> reads it as, and \<open>None\<close> for a character that is no decimal digit.
\<close>

type_synonym unicode_digits = "string \<Rightarrow> char option"

definition is_d :: "unicode_digits \<Rightarrow> string \<Rightarrow> bool" where
  "is_d uni ch =
     (case ch of
        [c] \<Rightarrow> is_digit c
      | _ \<Rightarrow> (case uni ch of Some a \<Rightarrow> is_digit a | None \<Rightarrow> False))"

text \<open>
  \<open>re.match(r'^[1-9]\d*$', string)\<close>: a first character from \<open>1\<close> to \<open>9\<close>, then decimal
  digits up to the end; \<open>$\<close> also matches just before a line feed that ends the string.
\<close>

definition pattern_match :: "unicode_digits \<Rightarrow> string \<Rightarrow> bool" where
  "pattern_match uni string =
     (case utf8_chars string of
        [] \<Rightarrow> False
      | c # cs \<Rightarrow>
          (case c of [a] \<Rightarrow> is_digit a \<and> a \<noteq> CHR ''0'' | _ \<Rightarrow> False) \<and>
          list_all (is_d uni) (if cs \<noteq> [] \<and> last cs = [CHR 0x0A] then butlast cs else cs))"

text \<open>
  \<open>int(string)\<close> for a \<open>str\<close>: the digits outside ASCII are replaced by their ASCII
  digits and the result is read as \<open>int()\<close> reads bytes. \<open>string_to_int\<close> calls it only
  on a string that matched the pattern, which holds digits and at most a final line
  feed; any other character outside ASCII is shown as \<open>?\<close> here, which \<open>int()\<close> refuses.
\<close>

definition to_ascii :: "unicode_digits \<Rightarrow> string \<Rightarrow> string" where
  "to_ascii uni ch =
     (case ch of
        [c] \<Rightarrow> [c]
      | _ \<Rightarrow> (case uni ch of Some a \<Rightarrow> [a] | None \<Rightarrow> ''?''))"

definition py_int_str :: "unicode_digits \<Rightarrow> string \<Rightarrow> int option" where
  "py_int_str uni string = py_int (concat (map (to_ascii uni) (utf8_chars string)))"

text \<open>
  \<^verbatim>\<open>
  def string_to_int(string: str) -> int:
      # "+5" and "05" are considered invalid
      pattern = r'^[1-9]\d*$'
      if not re.match(pattern, string):
          return None
      return int(string)
  \<close>
\<close>

definition string_to_int :: "unicode_digits \<Rightarrow> string \<Rightarrow> int option" where
  "string_to_int uni string =
     (if \<not> pattern_match uni string then None else py_int_str uni string)"

subsection \<open>Sockets, the process and its exceptions\<close>

text \<open>
  What the peer and the network do is a script per socket: the outcomes of the successive
  \<open>recv\<close> calls, each one the bytes received (the empty bytes: end of stream) or a
  timeout; after the script nothing arrives any more and \<open>recv\<close> times out. \<open>sent\<close>
  collects the arguments of \<open>sendall\<close>. \<open>send_fails\<close> says that the connection is broken
  so that \<open>sendall\<close> raises; on a closed socket \<open>sendall\<close> and \<open>recv\<close> raise as well.
\<close>

datatype recv_event = Recv bytes | Timeout

record sock =
  inbox :: "recv_event list"
  sent :: "bytes list"
  closed :: bool
  send_fails :: bool

datatype sock_id = ControlChannel | ServerSocket

text \<open>
  The state of the run: the control socket, the socket accepted on the data port with
  the address of its peer, the port that \<open>bind\<close> chose for the data channel, what \<open>print\<close> wrote, and the two residual buffers that the
  closure \<open>receive_message_queue\<close> keeps. Writes to \<open>sys.stderr\<close> are not recorded.
\<close>

record world =
  control_channel :: sock
  server_socket :: sock
  server_address :: string
  data_port :: nat
  stdout :: "string list"
  control_netstrings :: bytes
  data_netstrings :: bytes

text \<open>
  \<open>SystemExit c\<close> is what \<open>sys.exit(c)\<close> raises (\<open>sys.exit()\<close> is \<open>SystemExit None\<close>). The
  status of the process is 0 for \<open>SystemExit None\<close>, the code for \<open>SystemExit (Some c)\<close>
  and 1 for any other exception that nothing catches.
\<close>

datatype py_exc =
  SystemExit "int option" | OSError | ValueError | IndexError | UnicodeDecodeError
  | UnboundLocalError

definition exit_status :: "py_exc \<Rightarrow> int" where
  "exit_status e = (case e of SystemExit None \<Rightarrow> 0 | SystemExit (Some c) \<Rightarrow> c | _ \<Rightarrow> 1)"

type_synonym 'a py = "world \<Rightarrow> (py_exc + 'a) \<times> world"

definition py_return :: "'a \<Rightarrow> 'a py" where
  "py_return x = (\<lambda>w. (Inr x, w))"

definition py_raise :: "py_exc \<Rightarrow> 'a py" where
  "py_raise e = (\<lambda>w. (Inl e, w))"

definition py_bind :: "'a py \<Rightarrow> ('a \<Rightarrow> 'b py) \<Rightarrow> 'b py" where
  "py_bind m f = (\<lambda>w. case m w of (Inl e, w') \<Rightarrow> (Inl e, w') | (Inr x, w') \<Rightarrow> f x w')"

text \<open>\<open>try: m except: h\<close> with a bare \<open>except\<close>, which catches \<open>SystemExit\<close> too.\<close>

definition py_except :: "'a py \<Rightarrow> 'a py \<Rightarrow> 'a py" where
  "py_except m h = (\<lambda>w. case m w of (Inl e, w') \<Rightarrow> h w' | (Inr x, w') \<Rightarrow> (Inr x, w'))"

definition get_sock :: "sock_id \<Rightarrow> world \<Rightarrow> sock" where
  "get_sock s w = (case s of ControlChannel \<Rightarrow> control_channel w | ServerSocket \<Rightarrow> server_socket w)"

definition set_sock :: "sock_id \<Rightarrow> sock \<Rightarrow> world \<Rightarrow> world" where
  "set_sock s k w =
     (case s of ControlChannel \<Rightarrow> w\<lparr>control_channel := k\<rparr> | ServerSocket \<Rightarrow> w\<lparr>server_socket := k\<rparr>)"

definition sendall :: "bytes \<Rightarrow> sock_id \<Rightarrow> unit py" where
  "sendall b s = (\<lambda>w.
     let k = get_sock s w
     in if closed k \<or> send_fails k then (Inl OSError, w)
        else (Inr (), set_sock s (k\<lparr>sent := sent k @ [b]\<rparr>) w))"

definition close :: "sock_id \<Rightarrow> unit py" where
  "close s = (\<lambda>w. (Inr (), set_sock s ((get_sock s w)\<lparr>closed := True\<rparr>) w))"

definition print :: "string \<Rightarrow> unit py" where
  "print line = (\<lambda>w. (Inr (), w\<lparr>stdout := stdout w @ [line]\<rparr>))"

definition sys_exit :: "int option \<Rightarrow> 'a py" where
  "sys_exit code = py_raise (SystemExit code)"


subsection \<open>\<open>send_error\<close>, \<open>send_message\<close> and \<open>receive_message\<close>\<close>

text \<open>
  \<^verbatim>\<open>
  def send_error(error: str, sock: socket.socket):
      sock.sendall(string_to_netstring(f'E {error}').encode())
      print(f'Error: {error}')
      sock.close()
      sys.exit()
  \<close>
\<close>

definition send_error :: "string \<Rightarrow> sock_id \<Rightarrow> 'a py" where
  "send_error error s =
     py_bind (sendall (string_to_netstring (''E '' @ error)) s) (\<lambda>_.
     py_bind (print (''Error: '' @ error)) (\<lambda>_.
     py_bind (close s) (\<lambda>_.
     sys_exit None)))"


text \<open>
  The loop of \<open>inner\<close> that reads the socket: it adds every chunk to the buffer and
  stops at an empty chunk or a timeout. The result is the buffer and the rest of the
  script.
\<close>

fun recv_loop :: "recv_event list \<Rightarrow> bytes \<Rightarrow> bytes \<times> recv_event list" where
  "recv_loop [] netstrings = (netstrings, [])"
| "recv_loop (Timeout # evs) netstrings = (netstrings, evs)"
| "recv_loop (Recv d # evs) netstrings =
     (if d = [] then (netstrings, evs) else recv_loop evs (netstrings @ d))"

definition frame_error_text :: "frame_error \<Rightarrow> string" where
  "frame_error_text e =
     (case e of NoColon \<Rightarrow> '', no colon'' | StartsWith0OrPlus \<Rightarrow> '', startswith 0 or +''
      | InvalidLength \<Rightarrow> '', invalid length'' | NoComma \<Rightarrow> '', no comma'')"

text \<open>
  \<open>inner(sock, channel)\<close>, which is \<open>receive_message\<close>. After the read loop:
  \<^verbatim>\<open>
  if netstrings == b'':
      error = 'no netstring received'
      sock.sendall(string_to_netstring(f'E {error}').encode())
      print(f'Error: {error}')
      sock.close()
      sys.exit(1)
  ...                       # lines 86 to 102: inner_decode
  if channel == 0:
      control_netstrings = netstrings
  else:
      data_netstrings = netstrings
  if message is None:
      send_error(f'invalid netstring: {message}', sock)
  if message.split(b' ')[0] == b'E':
      send_error(message.split(b' ')[1].decode(), sock)
  return message
  \<close>
  \<open>message\<close> is a slice, never \<open>None\<close>. \<open>message.split(b' ')[1]\<close> raises \<open>IndexError\<close>
  when the message has no space, and \<open>.decode()\<close> raises \<open>UnicodeDecodeError\<close>.
\<close>

definition inner :: "sock_id \<Rightarrow> nat \<Rightarrow> bytes py" where
  "inner s channel = (\<lambda>w.
     let k = get_sock s w in
     if closed k then (Inl OSError, w)
     else
       let (netstrings, evs) =
             recv_loop (inbox k) (if channel = 0 then control_netstrings w else data_netstrings w);
           w1 = set_sock s (k\<lparr>inbox := evs\<rparr>) w
       in if netstrings = [] then
            py_bind (sendall (string_to_netstring (''E '' @ ''no netstring received'')) s) (\<lambda>_.
            py_bind (print (''Error: '' @ ''no netstring received'')) (\<lambda>_.
            py_bind (close s) (\<lambda>_.
            sys_exit (Some 1)))) w1
          else
            (case inner_decode netstrings of
               Inl e \<Rightarrow>
                 send_error (''invalid netstring: '' @ bytes_repr netstrings @ frame_error_text e) s w1
             | Inr (message, rest) \<Rightarrow>
                 let w2 = (if channel = 0 then w1\<lparr>control_netstrings := rest\<rparr>
                           else w1\<lparr>data_netstrings := rest\<rparr>)
                 in if hd (py_split CHR '' '' message) = ''E'' then
                      (case tl (py_split CHR '' '' message) of
                         [] \<Rightarrow> (Inl IndexError, w2)
                       | arg # _ \<Rightarrow>
                           if utf8_valid arg then send_error arg s w2
                           else (Inl UnicodeDecodeError, w2))
                    else (Inr message, w2)))"

definition receive_message :: "sock_id \<Rightarrow> nat \<Rightarrow> bytes py" where
  "receive_message = inner"

subsection \<open>\<open>build_data_channel\<close>\<close>



text \<open>
  Lines 138 to 145, the check of the token on the data channel:
  \<^verbatim>\<open>
  try:
      begin, received_token = data.split(b' ')
      if begin == b'E':
          send_error(received_token, server_socket)
      elif begin != b'T' or received_token != token:
          raise ValueError
  except:
      send_error(f'invalid message: {data}, expected T {token}', server_socket)
  \<close>
  The unpacking raises \<open>ValueError\<close> unless the split gives exactly two parts.
\<close>

definition check_token :: "bytes \<Rightarrow> bytes \<Rightarrow> unit py" where
  "check_token data token =
     py_except
       (case py_split CHR '' '' data of
          [begin, received_token] \<Rightarrow>
            if begin = ''E'' then send_error (bytes_repr received_token) ServerSocket
            else if begin \<noteq> ''T'' \<or> received_token \<noteq> token then py_raise ValueError
            else py_return ()
        | _ \<Rightarrow> py_raise ValueError)
       (send_error (''invalid message: '' @ bytes_repr data @ '', expected T '' @ bytes_repr token)
          ServerSocket)"


subsection \<open>\<open>run\<close>\<close>

text \<open>
  Lines 174 to 181 (the control token, with \<open>S\<close>) and 193 to 201 (the data token, with
  \<open>T\<close>) have the same shape:
  \<^verbatim>\<open>
  try:
      begin, token = response.split(b' ', 1)  # split only once
      if begin == b'E':
          send_error(token, control_channel)
      elif begin != b'S':
          raise ValueError
  except:
      send_error(f'invalid message: {response}, expected S <token>', control_channel)
  \<close>
\<close>

definition parse_token :: "string \<Rightarrow> bytes \<Rightarrow> bytes py" where
  "parse_token tag response =
     py_except
       (case py_split1 CHR '' '' response of
          [begin, token] \<Rightarrow>
            if begin = ''E'' then send_error (bytes_repr token) ControlChannel
            else if begin \<noteq> tag then py_raise ValueError
            else py_return token
        | _ \<Rightarrow> py_raise ValueError)
       (send_error (''invalid message: '' @ bytes_repr response @ '', expected '' @ tag @ '' <token>'')
          ControlChannel)"

text \<open>
  Lines 203 to 207. \<open>data\<close> is assigned here for the first time in \<open>run\<close>: when
  \<open>receive_message\<close> itself raises \<open>UnicodeDecodeError\<close>, the handler reads an unbound
  local.
  \<^verbatim>\<open>
  try:  # utf-8
      data = receive_message(control_channel, 0)
      data = data.decode()
  except UnicodeDecodeError:
      send_error(f'invalid utf-8 message: {data}', control_channel)
  \<close>
\<close>

definition receive_text :: "string py" where
  "receive_text = (\<lambda>w.
     case receive_message ControlChannel 0 w of
       (Inl e, w') \<Rightarrow> (Inl (if e = UnicodeDecodeError then UnboundLocalError else e), w')
     | (Inr data, w') \<Rightarrow>
         if utf8_valid data then (Inr data, w')
         else send_error (''invalid utf-8 message: '' @ bytes_repr data) ControlChannel w')"

text \<open>
  Lines 208 to 216:
  \<^verbatim>\<open>
  try:
      begin, msglen = data.split(' ')
      if begin != 'S':
          raise ValueError
      msglen = string_to_int(msglen)
      if msglen is None:
          raise ValueError
  except:
      send_error(f'invalid message: {data}, expected S <msglen>', control_channel)
  \<close>
\<close>

definition parse_msglen :: "unicode_digits \<Rightarrow> string \<Rightarrow> int py" where
  "parse_msglen uni data =
     py_except
       (case py_split CHR '' '' data of
          [begin, msglen] \<Rightarrow>
            if begin \<noteq> ''S'' then py_raise ValueError
            else (case string_to_int uni msglen of
                    None \<Rightarrow> py_raise ValueError
                  | Some n \<Rightarrow> py_return n)
        | _ \<Rightarrow> py_raise ValueError)
       (send_error (''invalid message: '' @ data @ '', expected S <msglen>'') ControlChannel)"

text \<open>
  The frame that forwards the data token, built by hand in lines 221 to 223:
  \<^verbatim>\<open>
  sent_bytes = 'C '.encode() + dtoken
  control_channel.sendall(str(len(sent_bytes)).encode() + b':' + sent_bytes + b',')
  \<close>
\<close>

definition token_frame :: "bytes \<Rightarrow> bytes" where
  "token_frame dtoken =
     str_of_nat (length (''C '' @ dtoken)) @ '':'' @ (''C '' @ dtoken) @ '',''"

text \<open>Lines 203 to 227 of \<open>run\<close>: the confirmation on the control channel.\<close>

definition confirmation :: "unicode_digits \<Rightarrow> string \<Rightarrow> bytes \<Rightarrow> unit py" where
  "confirmation uni message dtoken =
     py_bind receive_text (\<lambda>data.
     py_bind (parse_msglen uni data) (\<lambda>msglen.
     py_bind (if msglen \<noteq> int (length message)
              then send_error (''wrong message length: '' @ str_of_int msglen @ '', expected: ''
                                 @ str_of_nat (length message)) ControlChannel
              else py_return ()) (\<lambda>_.
     py_bind (sendall (token_frame dtoken) ControlChannel) (\<lambda>_.
     py_bind (receive_message ControlChannel 0) (\<lambda>data.
     if data \<noteq> ''S ACK''
     then send_error (''invalid message: '' @ bytes_repr data @ '', expected S ACK'') ControlChannel
     else py_return ())))))"


text \<open>The state in which \<open>run\<close> starts: open sockets, nothing sent, empty buffers.\<close>

definition new_sock :: "recv_event list \<Rightarrow> sock" where
  "new_sock evs = \<lparr>inbox = evs, sent = [], closed = False, send_fails = False\<rparr>"

definition start :: "recv_event list \<Rightarrow> recv_event list \<Rightarrow> string \<Rightarrow> nat \<Rightarrow> world" where
  "start control_script data_script address dport =
     \<lparr>control_channel = new_sock control_script, server_socket = new_sock data_script,
      server_address = address, data_port = dport, stdout = [],
      control_netstrings = [], data_netstrings = []\<rparr>"

text \<open>
  The table without entries. On input that is ASCII throughout the table is never
  consulted, so the concrete runs below use this one.
\<close>

definition ascii_only :: unicode_digits where
  "ascii_only = (\<lambda>ch. None)"

subsection \<open>Predicates for the failure paths\<close>


text \<open>
  A step that went well, seen on the socket \<open>s\<close>: it printed nothing, it left the socket
  as open and as able to send as it was, and it only added to what was sent, which it can
  do only on a socket that is open and able to send.
\<close>

definition quiet_on :: "sock_id \<Rightarrow> world \<Rightarrow> world \<Rightarrow> bool" where
  "quiet_on s w w' =
     (stdout w' = stdout w
      \<and> closed (get_sock s w') = closed (get_sock s w)
      \<and> send_fails (get_sock s w') = send_fails (get_sock s w)
      \<and> (\<exists>added. sent (get_sock s w') = sent (get_sock s w) @ added
            \<and> (added = [] \<or> \<not> (closed (get_sock s w) \<or> send_fails (get_sock s w)))))"

definition quiet :: "world \<Rightarrow> world \<Rightarrow> bool" where
  "quiet w w' = (quiet_on ControlChannel w w' \<and> quiet_on ServerSocket w w')"


text \<open>What every successful and every failing run of a computation satisfies.\<close>

definition succeeds :: "(world \<Rightarrow> world \<Rightarrow> bool) \<Rightarrow> 'a py \<Rightarrow> ('a \<Rightarrow> bool) \<Rightarrow> bool" where
  "succeeds R m Q = (\<forall>w x w'. m w = (Inr x, w') \<longrightarrow> R w w' \<and> Q x)"

definition fails :: "(world \<Rightarrow> py_exc \<Rightarrow> world \<Rightarrow> bool) \<Rightarrow> 'a py \<Rightarrow> bool" where
  "fails F m = (\<forall>w e w'. m w = (Inl e, w') \<longrightarrow> F w e w')"

section \<open>Properties\<close>

subsection \<open>Decimal numerals and \<open>int()\<close>\<close>

lemma is_digit_digit_char: "d < 10 \<Longrightarrow> is_digit (digit_char d)"
  by (simp add: is_digit_def digit_char_def)

lemma digit_val_digit_char: "d < 10 \<Longrightarrow> digit_val (digit_char d) = d"
  by (simp add: digit_val_def digit_char_def)

lemma digit_char_0: "digit_char 0 = CHR ''0''"
  unfolding digit_char_def by code_simp

lemma digit_char_eq_zero: "d < 10 \<Longrightarrow> (digit_char d = CHR ''0'') = (d = 0)"
proof
  assume "d < 10" and e: "digit_char d = CHR ''0''"
  have "of_char (digit_char d) = (48 + d :: nat)" using \<open>d < 10\<close> by (simp add: digit_char_def)
  with e show "d = 0" by simp
next
  assume "d = 0"
  then show "digit_char d = CHR ''0''" by (simp add: digit_char_0)
qed

lemma str_of_nat_digits: "c \<in> set (str_of_nat n) \<Longrightarrow> is_digit c"
proof (induction n arbitrary: c rule: str_of_nat.induct)
  case (1 n)
  show ?case
  proof (cases "n < 10")
    case True
    with "1.prems" show ?thesis by (simp add: str_of_nat.simps [of n] is_digit_digit_char)
  next
    case False
    with "1.prems" "1.IH" show ?thesis
      by (auto simp: str_of_nat.simps [of n] is_digit_digit_char)
  qed
qed

lemma str_of_nat_nonempty: "str_of_nat n \<noteq> []"
  by (simp add: str_of_nat.simps [of n])

lemma hd_str_of_nat: "0 < n \<Longrightarrow> hd (str_of_nat n) \<noteq> CHR ''0''"
proof (induction n rule: str_of_nat.induct)
  case (1 n)
  show ?case
  proof (cases "n < 10")
    case True
    with "1.prems" show ?thesis by (simp add: str_of_nat.simps [of n] digit_char_eq_zero)
  next
    case False
    then have "0 < n div 10" by simp
    with False "1.IH" show ?thesis
      by (simp add: str_of_nat.simps [of n] str_of_nat_nonempty)
  qed
qed

lemma digits_value_snoc: "digits_value (ds @ [c]) = 10 * digits_value ds + digit_val c"
  by (simp add: digits_value_def)

lemma digits_value_str_of_nat: "digits_value (str_of_nat n) = n"
proof (induction n rule: str_of_nat.induct)
  case (1 n)
  show ?case
  proof (cases "n < 10")
    case True
    then show ?thesis by (simp add: str_of_nat.simps [of n] digits_value_def digit_val_digit_char)
  next
    case False
    with "1.IH" show ?thesis
      by (simp add: str_of_nat.simps [of n] digits_value_snoc digit_val_digit_char)
  qed
qed

lemma is_digit_not_space: "is_digit c \<Longrightarrow> \<not> is_space c"
  by (auto simp: is_digit_def is_space_def)

lemma is_digit_not_sign: "is_digit c \<Longrightarrow> c \<noteq> CHR ''+'' \<and> c \<noteq> CHR ''-'' \<and> c \<noteq> CHR ''_'' \<and> c \<noteq> CHR '':''"
  by (auto simp: is_digit_def)

lemma double_underscore_digits: "\<forall>c\<in>set ds. is_digit c \<Longrightarrow> \<not> double_underscore ds"
  by (induction ds rule: double_underscore.induct) (auto dest: is_digit_not_sign)

lemma is_space_not_body: "is_space c \<Longrightarrow> \<not> (is_digit c \<or> c = CHR ''_'')"
  by (auto simp: is_digit_def is_space_def)

text \<open>Digits, then white space: what \<open>int()\<close> makes of it.\<close>

lemma py_int_digits_space:
  assumes "ds \<noteq> []" and "\<forall>c\<in>set ds. is_digit c" and "list_all is_space sp"
  shows "py_int (ds @ sp) =
           (if length ds \<le> int_max_str_digits then Some (int (digits_value ds)) else None)"
proof -
  let ?P = "\<lambda>c. is_digit c \<or> c = CHR ''_''"
  from assms have h: "is_digit (hd ds)" and l: "is_digit (last ds)" by auto
  have d1: "dropWhile is_space (ds @ sp) = ds @ sp"
    using assms(1) h by (cases ds) (auto dest: is_digit_not_space)
  have hd: "hd (ds @ sp) = hd ds" using assms(1) by simp
  have sp: "takeWhile ?P sp = []" "dropWhile ?P sp = sp"
    using assms(3) by (cases sp; simp add: is_space_not_body)+
  have t: "takeWhile ?P (ds @ sp) = ds"
    using assms(2) sp by (simp add: takeWhile_append2)
  have d: "dropWhile ?P (ds @ sp) = sp"
    using assms(2) sp by (simp add: dropWhile_append2)
  have f: "filter is_digit ds = ds" using assms(2) by simp
  show ?thesis
    using assms h l is_digit_not_sign [OF h] is_digit_not_sign [OF l] double_underscore_digits [of ds]
    by (simp add: py_int_def d1 hd t d f Let_def)
qed

lemma py_int_digits:
  assumes "ds \<noteq> []" and "\<forall>c\<in>set ds. is_digit c"
  shows "py_int ds =
           (if length ds \<le> int_max_str_digits then Some (int (digits_value ds)) else None)"
  using py_int_digits_space [OF assms, of "[]"] by simp

text \<open>The number of digits of \<open>str(n)\<close>.\<close>

lemma length_str_of_nat: "0 < d \<Longrightarrow> (length (str_of_nat n) \<le> d) = (n < 10 ^ d)"
proof (induction n arbitrary: d rule: str_of_nat.induct)
  case (1 n)
  show ?case
  proof (cases "n < 10")
    case True
    have "(10::nat) ^ 1 \<le> 10 ^ d" using "1.prems" by (intro power_increasing) simp_all
    with True "1.prems" show ?thesis by (simp add: str_of_nat.simps [of n])
  next
    case False
    show ?thesis
    proof (cases "d = 1")
      case True
      with False show ?thesis
        using str_of_nat_nonempty [of "n div 10"]
        by (cases "str_of_nat (n div 10)") (simp_all add: str_of_nat.simps [of n])
    next
      case d: False
      with "1.prems" obtain e where e: "d = Suc e" "0 < e" by (cases d) auto
      have "(n div 10 < 10 ^ e) = (n < 10 ^ e * 10)"
        by (rule div_less_iff_less_mult) simp
      with False e "1.IH" [of e] show ?thesis
        by (simp add: str_of_nat.simps [of n] mult.commute)
    qed
  qed
qed

lemma int_max_str_digits_pos: "0 < int_max_str_digits"
  by (simp add: int_max_str_digits_def)

lemma py_int_str_of_nat:
  assumes "n < 10 ^ int_max_str_digits"
  shows "py_int (str_of_nat n) = Some (int n)"
proof -
  have "length (str_of_nat n) \<le> int_max_str_digits"
    using assms length_str_of_nat [OF int_max_str_digits_pos, of n] by simp
  moreover have "\<forall>c\<in>set (str_of_nat n). is_digit c" by (simp add: str_of_nat_digits)
  ultimately show ?thesis
    using py_int_digits [of "str_of_nat n"]
    by (simp add: str_of_nat_nonempty digits_value_str_of_nat)
qed

lemma below_digit_limit: "(n::nat) < 10 \<Longrightarrow> n < 10 ^ int_max_str_digits"
proof -
  assume n: "n < 10"
  have "(10::nat) ^ 1 \<le> 10 ^ int_max_str_digits"
    using int_max_str_digits_pos by (intro power_increasing) simp_all
  with n show ?thesis by simp
qed

lemma py_split1_first: "sep \<notin> set a \<Longrightarrow> py_split1 sep (a @ sep # b) = [a, b]"
proof -
  assume a: "sep \<notin> set a"
  then have t: "takeWhile (\<lambda>c. c \<noteq> sep) (a @ sep # b) = a"
    by (induction a) auto
  from a have d: "dropWhile (\<lambda>c. c \<noteq> sep) (a @ sep # b) = sep # b"
    by (induction a) auto
  show ?thesis by (simp add: py_split1_def t d)
qed

lemma colon_not_in_str_of_nat: "CHR '':'' \<notin> set (str_of_nat n)"
  using str_of_nat_digits [of "CHR '':''" n] is_digit_not_sign [of "CHR '':''"] by blast

lemma py_slice_payload: "py_slice (m @ r) 0 (int (length m)) = m"
  by (simp add: py_slice_def clamp_index_def)

lemma py_slice_comma: "py_slice (m @ c # r) (int (length m)) (int (length m) + 1) = [c]"
  by (simp add: py_slice_def clamp_index_def nat_add_distrib)

lemma py_slice_rest: "j = int (length (m @ c # r)) \<Longrightarrow> py_slice (m @ c # r) (int (length m) + 1) j = r"
  by (simp add: py_slice_def clamp_index_def nat_add_distrib)

lemma inner_decode_frame:
  assumes "m \<noteq> []" and "length m < 10 ^ int_max_str_digits"
  shows "inner_decode (string_to_netstring m @ r) = Inr (m, r)"
proof -
  have n: "0 < length m" using assms by simp
  have s: "py_split1 CHR '':'' (str_of_nat (length m) @ CHR '':'' # (m @ CHR '','' # r)) = [str_of_nat (length m), m @ CHR '','' # r]"
    by (rule py_split1_first) (rule colon_not_in_str_of_nat)
  have z: "\<not> startswith ''0'' (str_of_nat (length m))"
    using hd_str_of_nat [OF n] str_of_nat_nonempty [of "length m"]
    by (cases "str_of_nat (length m)") (auto simp: startswith_def)
  have p: "\<not> startswith ''+'' (str_of_nat (length m))"
    using str_of_nat_digits [of "CHR ''+''" "length m"] is_digit_not_sign [of "CHR ''+''"]
    by (cases "str_of_nat (length m)") (auto simp: startswith_def)
  have e: "string_to_netstring m @ r = str_of_nat (length m) @ CHR '':'' # (m @ CHR '','' # r)"
    by (simp add: string_to_netstring_def)
  show ?thesis
    unfolding e inner_decode_def s
    using z p
    by (cases r)
      (simp_all add: py_int_str_of_nat [OF assms(2)] py_slice_payload py_slice_comma py_slice_rest)
qed

text \<open>Two frames are equal only when their payloads are.\<close>

lemma netstring_inject:
  assumes "string_to_netstring a = string_to_netstring b"
  shows "a = b"
proof -
  have s: "py_split1 CHR '':'' (string_to_netstring x) = [str_of_nat (length x), x @ '','']" for x
    unfolding string_to_netstring_def
    using py_split1_first [OF colon_not_in_str_of_nat, of "length x" "x @ '',''"] by simp
  have "[str_of_nat (length a), a @ '',''] = py_split1 CHR '':'' (string_to_netstring a)"
    by (simp only: s)
  also have "\<dots> = py_split1 CHR '':'' (string_to_netstring b)" by (simp only: assms)
  also have "\<dots> = [str_of_nat (length b), b @ '','']" by (simp only: s)
  finally show ?thesis by simp
qed

subsection \<open>The frame decoder\<close>

lemma inner_decode_empty_length: "inner_decode (CHR '':'' # data) = Inl InvalidLength"
  by (simp add: inner_decode_def py_split1_def startswith_def py_int_def)

lemma inner_decode_startswith:
  assumes "CHR '':'' \<notin> set len" and "startswith ''0'' len \<or> startswith ''+'' len"
  shows "inner_decode (len @ CHR '':'' # data) = Inl StartsWith0OrPlus"
  using assms by (auto simp: inner_decode_def py_split1_first)

lemma digits_not_startswith_plus:
  assumes "len \<noteq> []" and "\<forall>c\<in>set len. is_digit c"
  shows "\<not> startswith ''+'' len"
proof -
  have "is_digit (hd len)" using assms by simp
  then have "hd len \<noteq> CHR ''+''" by (simp add: is_digit_not_sign)
  then show ?thesis using assms(1) by (cases len) (auto simp: startswith_def)
qed

lemma inner_decode_digits_not_malformed:
  assumes "CHR '':'' \<notin> set len" and "len \<noteq> []" and "\<forall>c\<in>set len. is_digit c"
    and "\<not> startswith ''0'' len" and "length len \<le> int_max_str_digits"
  shows "inner_decode (len @ CHR '':'' # data) \<noteq> Inl StartsWith0OrPlus
       \<and> inner_decode (len @ CHR '':'' # data) \<noteq> Inl InvalidLength"
  using assms(4,5) digits_not_startswith_plus [OF assms(2,3)] py_int_digits [OF assms(2,3)]
  by (simp add: inner_decode_def py_split1_first [OF assms(1)])

lemma inner_decode_too_many_digits:
  assumes "CHR '':'' \<notin> set len" and "\<forall>c\<in>set len. is_digit c"
    and "int_max_str_digits < length len"
  shows "inner_decode (len @ CHR '':'' # data) = Inl StartsWith0OrPlus
       \<or> inner_decode (len @ CHR '':'' # data) = Inl InvalidLength"
proof -
  from assms(3) have ne: "len \<noteq> []" by auto
  show ?thesis
    using assms(3) digits_not_startswith_plus [OF ne assms(2)] py_int_digits [OF ne assms(2)]
    by (simp add: inner_decode_def py_split1_first [OF assms(1)])
qed

text \<open>
  C1, the claim as stated: the frame \<open>0:,\<close> is not accepted as the empty message. Its
  length field starts with \<open>0\<close>, which line 91 rejects with \<open>startswith 0 or +\<close>.
\<close>

theorem C1_zero_length_frame_rejected:
  "inner_decode ''0:,'' = Inl StartsWith0OrPlus \<and> inner_decode ''0:,'' \<noteq> Inr ([], [])"
  by (simp add: inner_decode_def py_split1_def startswith_def)

text \<open>
  C1, amended: \<open>00:,\<close> and \<open>+3:abc,\<close> fail with \<open>startswith 0 or +\<close>, \<open>3abc,\<close> with
  \<open>no colon\<close> and \<open>3:ab,\<close> with \<open>no comma\<close> (the one error for a short payload and a
  missing comma). A length field that is empty, begins with \<open>0\<close> (the single character
  \<open>0\<close> included) or with \<open>+\<close>, or consists of more digits than \<open>int()\<close> reads, is always
  rejected as malformed; and a length field is rejected as malformed only when it is
  empty, begins with \<open>0\<close>, begins with \<open>+\<close>, holds a byte that is no digit, or is longer
  than the digits that \<open>int()\<close> reads.
\<close>

theorem C1_decoder_rejections:
  "inner_decode ''00:,'' = Inl StartsWith0OrPlus \<and>
   inner_decode ''+3:abc,'' = Inl StartsWith0OrPlus \<and>
   inner_decode ''3abc,'' = Inl NoColon \<and>
   inner_decode ''3:ab,'' = Inl NoComma \<and>
   (CHR '':'' \<notin> set len \<longrightarrow>
      (len = [] \<or> startswith ''0'' len \<or> startswith ''+'' len
         \<or> ((\<forall>c\<in>set len. is_digit c) \<and> int_max_str_digits < length len) \<longrightarrow>
         inner_decode (len @ '':'' @ data) = Inl StartsWith0OrPlus
         \<or> inner_decode (len @ '':'' @ data) = Inl InvalidLength) \<and>
      (inner_decode (len @ '':'' @ data) = Inl StartsWith0OrPlus
         \<or> inner_decode (len @ '':'' @ data) = Inl InvalidLength \<longrightarrow>
         len = [] \<or> startswith ''0'' len \<or> startswith ''+'' len
         \<or> (\<exists>c\<in>set len. \<not> is_digit c) \<or> int_max_str_digits < length len))"
proof -
  have a: "inner_decode ''00:,'' = Inl StartsWith0OrPlus"
    by (simp add: inner_decode_def py_split1_def startswith_def)
  have b: "inner_decode ''+3:abc,'' = Inl StartsWith0OrPlus"
    by (simp add: inner_decode_def py_split1_def startswith_def)
  have c: "inner_decode ''3abc,'' = Inl NoColon"
    by (simp add: inner_decode_def py_split1_def)
  have d: "inner_decode ''3:ab,'' = Inl NoComma"
    by (simp add: inner_decode_def py_split1_def startswith_def py_int_def is_space_def
        is_digit_def digits_value_def digit_val_def int_max_str_digits_def)
  have e: "inner_decode (len @ '':'' @ data) = Inl StartsWith0OrPlus
         \<or> inner_decode (len @ '':'' @ data) = Inl InvalidLength"
    if "CHR '':'' \<notin> set len"
      and "len = [] \<or> startswith ''0'' len \<or> startswith ''+'' len
         \<or> ((\<forall>c\<in>set len. is_digit c) \<and> int_max_str_digits < length len)"
  proof (cases "len = []")
    case True
    then show ?thesis by (simp add: inner_decode_empty_length)
  next
    case False
    with that inner_decode_startswith [of len data] inner_decode_too_many_digits [of len data]
    show ?thesis by auto
  qed
  have f: "len = [] \<or> startswith ''0'' len \<or> startswith ''+'' len
         \<or> (\<exists>c\<in>set len. \<not> is_digit c) \<or> int_max_str_digits < length len"
    if "CHR '':'' \<notin> set len"
      and "inner_decode (len @ '':'' @ data) = Inl StartsWith0OrPlus
         \<or> inner_decode (len @ '':'' @ data) = Inl InvalidLength"
  proof (rule ccontr)
    assume n: "\<not> ?thesis"
    then have "len \<noteq> []" "\<forall>c\<in>set len. is_digit c" "\<not> startswith ''0'' len"
      "length len \<le> int_max_str_digits"
      by auto
    from inner_decode_digits_not_malformed [OF that(1) this, of data] that(2)
    show False by simp
  qed
  from a b c d e f show ?thesis by blast
qed

theorem C1_decoder_rejections_witness:
  "inner_decode ''0:,'' = Inl StartsWith0OrPlus \<or> inner_decode ''0:,'' = Inl InvalidLength"
  using C1_decoder_rejections [of "''0''" "'',''"] by (simp add: startswith_def)

text \<open>
  C2, the claim as stated: the empty message does not come back. It is framed as
  \<open>0:,\<close>, which the decoder rejects.
\<close>

theorem C2_empty_message_not_decoded:
  "string_to_netstring [] = ''0:,'' \<and> inner_decode (string_to_netstring []) \<noteq> Inr ([], [])"
  by (simp add: string_to_netstring_def str_of_nat.simps [of 0] digit_char_0
      inner_decode_def py_split1_def startswith_def)

text \<open>
  C2, amended: for every message \<open>m\<close> that is not empty, decoding the frame
  \<open>str(len(m)) + ":" + m + ","\<close> that \<open>string_to_netstring\<close> builds gives \<open>m\<close> and the
  empty remainder. The bound on the length of \<open>m\<close> is the number of digits that \<open>str()\<close>
  and \<open>int()\<close> convert; no byte sequence that exists reaches it.
\<close>

theorem C2_roundtrip:
  assumes "m \<noteq> []" and "length m < 10 ^ int_max_str_digits"
  shows "string_to_netstring m = str_of_nat (length m) @ '':'' @ m @ '',''
       \<and> inner_decode (string_to_netstring m) = Inr (m, [])"
  using inner_decode_frame [OF assms, of "[]"] by (simp add: string_to_netstring_def)

theorem C2_roundtrip_witness:
  "inner_decode (string_to_netstring ''abc'') = Inr (''abc'', [])"
proof -
  have "''abc'' \<noteq> []" by simp
  moreover have "length ''abc'' < 10 ^ int_max_str_digits" by (rule below_digit_limit) simp
  ultimately show ?thesis using C2_roundtrip [of "''abc''"] by blast
qed

subsection \<open>How the primitives run\<close>

lemma get_set_sock [simp]: "get_sock s (set_sock s k w) = k"
  by (cases s) (simp_all add: get_sock_def set_sock_def)

lemma set_sock_fields [simp]:
  "stdout (set_sock s k w) = stdout w"
  "control_netstrings (set_sock s k w) = control_netstrings w"
  "data_netstrings (set_sock s k w) = data_netstrings w"
  "server_address (set_sock s k w) = server_address w"
  "data_port (set_sock s k w) = data_port w"
  by (cases s; simp add: set_sock_def)+

lemma get_sock_fields [simp]:
  "get_sock s (w\<lparr>stdout := x\<rparr>) = get_sock s w"
  "get_sock s (w\<lparr>control_netstrings := b\<rparr>) = get_sock s w"
  "get_sock s (w\<lparr>data_netstrings := b\<rparr>) = get_sock s w"
  by (cases s; simp add: get_sock_def)+

text \<open>The four steps that end every error path: send, print, close, exit.\<close>

lemma notify_and_exit:
  "py_bind (sendall frame s) (\<lambda>_. py_bind (print line) (\<lambda>_. py_bind (close s) (\<lambda>_. sys_exit code))) w =
     (if closed (get_sock s w) \<or> send_fails (get_sock s w) then (Inl OSError, w)
      else (Inl (SystemExit code),
            set_sock s ((get_sock s w)\<lparr>sent := sent (get_sock s w) @ [frame], closed := True\<rparr>)
              (w\<lparr>stdout := stdout w @ [line]\<rparr>)))"
  by (cases s)
     (simp_all add: py_bind_def sendall_def print_def close_def sys_exit_def py_raise_def
        get_sock_def set_sock_def Let_def)

lemma send_error_run:
  "send_error error s w =
     (if closed (get_sock s w) \<or> send_fails (get_sock s w) then (Inl OSError, w)
      else (Inl (SystemExit None),
            set_sock s ((get_sock s w)\<lparr>sent := sent (get_sock s w) @ [string_to_netstring (''E '' @ error)],
                                      closed := True\<rparr>)
              (w\<lparr>stdout := stdout w @ [''Error: '' @ error]\<rparr>)))"
  unfolding send_error_def by (rule notify_and_exit)

lemma send_error_not_Inr: "send_error error s w \<noteq> (Inr x, w')"
  by (simp add: send_error_run)

lemma inner_Inr:
  assumes "inner s channel w = (Inr m, w')"
  shows "\<not> closed (get_sock s w) \<and> \<not> closed (get_sock s w')
       \<and> sent (get_sock s w') = sent (get_sock s w)
       \<and> send_fails (get_sock s w') = send_fails (get_sock s w)
       \<and> stdout w' = stdout w"
proof -
  from assms have o: "\<not> closed (get_sock s w)"
    by (auto simp: inner_def Let_def split: if_splits)
  obtain netstrings evs where r:
    "recv_loop (inbox (get_sock s w)) (if channel = 0 then control_netstrings w else data_netstrings w) = (netstrings, evs)"
    by (cases "recv_loop (inbox (get_sock s w)) (if channel = 0 then control_netstrings w else data_netstrings w)")
  define w1 where "w1 = set_sock s ((get_sock s w)\<lparr>inbox := evs\<rparr>) w"
  from assms o r have n: "netstrings \<noteq> []"
    by (auto simp: inner_def Let_def notify_and_exit split: if_splits)
  from assms o r n obtain rest where d: "inner_decode netstrings = Inr (m, rest)"
    and w': "w' = (if channel = 0 then w1\<lparr>control_netstrings := rest\<rparr> else w1\<lparr>data_netstrings := rest\<rparr>)"
    unfolding w1_def
    by (auto simp: inner_def Let_def send_error_run split: if_splits sum.splits list.splits prod.splits)
  show ?thesis using o by (simp add: w' w1_def)
qed

subsection \<open>\<open>split\<close>\<close>

lemma py_split_nonempty: "py_split sep b \<noteq> []"
  by (induction b) auto

lemma py_split_no_sep: "sep \<notin> set b \<Longrightarrow> py_split sep b = [b]"
  by (induction b) auto

lemma py_split_at_sep: "sep \<notin> set a \<Longrightarrow> py_split sep (a @ sep # b) = a # py_split sep b"
  by (induction a) auto

lemma py_split_one: "py_split sep b = [a] \<Longrightarrow> b = a \<and> sep \<notin> set a"
proof (induction b arbitrary: a)
  case Nil
  then show ?case by simp
next
  case (Cons c cs)
  show ?case
  proof (cases "c = sep")
    case True
    with Cons.prems show ?thesis by (simp add: py_split_nonempty)
  next
    case False
    with Cons.prems obtain t where t: "py_split sep cs = [t]" "a = c # t"
      by (cases "py_split sep cs") (auto simp: py_split_nonempty)
    from Cons.IH [OF t(1)] t(2) False show ?thesis by auto
  qed
qed

lemma py_split_two:
  "(py_split sep b = [x, y]) = (b = x @ sep # y \<and> sep \<notin> set x \<and> sep \<notin> set y)"
proof
  assume "b = x @ sep # y \<and> sep \<notin> set x \<and> sep \<notin> set y"
  then show "py_split sep b = [x, y]" by (simp add: py_split_at_sep py_split_no_sep)
next
  assume "py_split sep b = [x, y]"
  then show "b = x @ sep # y \<and> sep \<notin> set x \<and> sep \<notin> set y"
  proof (induction b arbitrary: x)
    case Nil
    then show ?case by simp
  next
    case (Cons c cs)
    show ?case
    proof (cases "c = sep")
      case True
      with Cons.prems have "x = []" and "py_split sep cs = [y]" by auto
      with py_split_one [of sep cs y] True show ?thesis by simp
    next
      case False
      with Cons.prems obtain t where t: "py_split sep cs = [t, y]" "x = c # t"
        by (cases "py_split sep cs") (auto simp: py_split_nonempty)
      from Cons.IH [OF t(1)] t(2) False show ?thesis by auto
    qed
  qed
qed


subsection \<open>\<open>string_to_int\<close>\<close>

lemma is_digit_not_cont: "is_digit c \<Longrightarrow> \<not> is_cont (of_char c)"
  by (simp add: is_digit_def is_cont_def)

lemma utf8_chars_ascii:
  "\<forall>c\<in>set s. \<not> is_cont (of_char c) \<Longrightarrow> utf8_chars s = map (\<lambda>c. [c]) s"
proof (induction s)
  case Nil
  then show ?case by simp
next
  case (Cons c cs)
  then have "takeWhile (\<lambda>x. is_cont (of_char x)) cs = []"
    and "dropWhile (\<lambda>x. is_cont (of_char x)) cs = cs"
    by (cases cs; simp)+
  with Cons show ?case by simp
qed

lemma is_d_single: "is_d uni [c] = is_digit c"
  by (simp add: is_d_def)

lemma to_ascii_single: "to_ascii uni [c] = [c]"
  by (simp add: to_ascii_def)

lemma fold_digits_ge: "v \<le> fold (\<lambda>c v. 10 * v + digit_val c) ds v"
proof (induction ds arbitrary: v)
  case Nil
  then show ?case by simp
next
  case (Cons d ds)
  have "v \<le> 10 * v + digit_val d" by simp
  also have "\<dots> \<le> fold (\<lambda>c v. 10 * v + digit_val c) ds (10 * v + digit_val d)" by (rule Cons.IH)
  finally show ?case by simp
qed

lemma digit_val_pos: "is_digit a \<Longrightarrow> a \<noteq> CHR ''0'' \<Longrightarrow> 0 < digit_val a"
proof -
  assume d: "is_digit a" and z: "a \<noteq> CHR ''0''"
  have "of_char a \<noteq> (48::nat)"
  proof
    assume "of_char a = (48::nat)"
    then have "of_char a = (of_char (CHR ''0'') :: nat)" by simp
    then have "a = CHR ''0''" by (simp only: of_char_eq_iff)
    with z show False by simp
  qed
  with d show ?thesis by (simp add: is_digit_def digit_val_def)
qed

lemma is_d_to_ascii:
  assumes "is_d uni ch"
  shows "\<exists>c. to_ascii uni ch = [c] \<and> is_digit c"
  using assms by (auto simp: is_d_def to_ascii_def split: list.splits option.splits)

lemma concat_to_ascii:
  "list_all (is_d uni) ds \<Longrightarrow>
     concat (map (to_ascii uni) ds) = map (\<lambda>ch. hd (to_ascii uni ch)) ds"
proof (induction ds)
  case Nil
  then show ?case by simp
next
  case (Cons d ds)
  then obtain c where "to_ascii uni d = [c]" using is_d_to_ascii [of uni d] by auto
  with Cons show ?case by simp
qed

lemma is_d_not_line_feed: "\<not> is_d uni [CHR 0x0A]"
  by (simp add: is_d_def is_digit_def)

lemma utf8_chars_hd: "utf8_chars s = [a] # cs \<Longrightarrow> s \<noteq> [] \<and> hd s = a"
  by (cases s) auto

text \<open>
  What \<open>string_to_int\<close> gives on a string made of a digit from 1 to 9, further decimal
  digits and possibly a final line feed.
\<close>

lemma string_to_int_numeral:
  assumes "utf8_chars s = [a] # ds @ lf" and "lf = [] \<or> lf = [[CHR 0x0A]]"
    and "is_digit a" and "a \<noteq> CHR ''0''" and "list_all (is_d uni) ds"
  shows "string_to_int uni s =
           (if length ds < int_max_str_digits
            then Some (int (digits_value (a # map (\<lambda>ch. hd (to_ascii uni ch)) ds)))
            else None)"
proof -
  let ?D = "map (\<lambda>ch. hd (to_ascii uni ch)) ds"
  have strip: "(if ds @ lf \<noteq> [] \<and> last (ds @ lf) = [CHR 0x0A] then butlast (ds @ lf) else ds @ lf) = ds"
  proof (cases "lf = []")
    case True
    have "last ds \<noteq> [CHR 0x0A]" if "ds \<noteq> []"
    proof
      assume "last ds = [CHR 0x0A]"
      moreover have "last ds \<in> set ds" using that by simp
      ultimately have "is_d uni [CHR 0x0A]" using assms(5) by (auto simp: list_all_iff)
      then show False by (simp add: is_d_not_line_feed)
    qed
    with True show ?thesis by auto
  next
    case False
    with assms(2) show ?thesis by auto
  qed
  have pm: "pattern_match uni s"
    unfolding pattern_match_def assms(1) using assms(3,4,5) strip by simp
  have "is_digit (hd (to_ascii uni ch))" if "ch \<in> set ds" for ch
  proof -
    from that assms(5) have "is_d uni ch" by (simp add: list_all_iff)
    from is_d_to_ascii [OF this] show ?thesis by auto
  qed
  with assms(3) have dig: "\<forall>c\<in>set (a # ?D). is_digit c" by auto
  have sp: "list_all is_space (concat (map (to_ascii uni) lf))"
    using assms(2) by (auto simp: to_ascii_single is_space_def)
  have "concat (map (to_ascii uni) (utf8_chars s)) = (a # ?D) @ concat (map (to_ascii uni) lf)"
    by (simp add: assms(1) to_ascii_single concat_to_ascii [OF assms(5)])
  then have "py_int_str uni s =
      (if length (a # ?D) \<le> int_max_str_digits then Some (int (digits_value (a # ?D))) else None)"
    using py_int_digits_space [OF _ dig sp] by (simp add: py_int_str_def)
  with pm show ?thesis by (simp add: string_to_int_def less_eq_Suc_le)
qed

lemma pattern_match_chars:
  assumes "pattern_match uni s"
  shows "\<exists>a ds lf. utf8_chars s = [a] # ds @ lf \<and> (lf = [] \<or> lf = [[CHR 0x0A]])
           \<and> is_digit a \<and> a \<noteq> CHR ''0'' \<and> list_all (is_d uni) ds"
proof (cases "utf8_chars s")
  case Nil
  with assms show ?thesis by (simp add: pattern_match_def)
next
  case (Cons c cs)
  with assms obtain a where a: "c = [a]" "is_digit a" "a \<noteq> CHR ''0''"
    by (auto simp: pattern_match_def split: list.splits)
  show ?thesis
  proof (cases "cs \<noteq> [] \<and> last cs = [CHR 0x0A]")
    case True
    then have "cs = butlast cs @ [[CHR 0x0A]]" by (metis append_butlast_last_id)
    moreover from assms Cons True have "list_all (is_d uni) (butlast cs)"
      by (auto simp: pattern_match_def)
    ultimately show ?thesis using Cons a by (metis append_Cons)
  next
    case False
    with assms Cons have "list_all (is_d uni) cs" by (auto simp: pattern_match_def)
    with Cons a show ?thesis by (metis append_Nil2)
  qed
qed

lemma string_to_int_iff:
  "(string_to_int uni s = Some k) =
     (\<exists>a ds. (utf8_chars s = [a] # ds \<or> utf8_chars s = [a] # ds @ [[CHR 0x0A]])
        \<and> is_digit a \<and> a \<noteq> CHR ''0'' \<and> list_all (is_d uni) ds
        \<and> length ds < int_max_str_digits
        \<and> k = int (digits_value (a # map (\<lambda>ch. hd (to_ascii uni ch)) ds)))"
proof
  assume s: "string_to_int uni s = Some k"
  then have "pattern_match uni s" by (auto simp: string_to_int_def split: if_splits)
  from pattern_match_chars [OF this] obtain a ds lf where
    c: "utf8_chars s = [a] # ds @ lf" "lf = [] \<or> lf = [[CHR 0x0A]]"
      "is_digit a" "a \<noteq> CHR ''0''" "list_all (is_d uni) ds"
    by blast
  from string_to_int_numeral [OF c] s
  have "length ds < int_max_str_digits"
    and "k = int (digits_value (a # map (\<lambda>ch. hd (to_ascii uni ch)) ds))"
    by (auto split: if_splits)
  with c show "\<exists>a ds. (utf8_chars s = [a] # ds \<or> utf8_chars s = [a] # ds @ [[CHR 0x0A]])
        \<and> is_digit a \<and> a \<noteq> CHR ''0'' \<and> list_all (is_d uni) ds
        \<and> length ds < int_max_str_digits
        \<and> k = int (digits_value (a # map (\<lambda>ch. hd (to_ascii uni ch)) ds))"
    by auto
next
  assume "\<exists>a ds. (utf8_chars s = [a] # ds \<or> utf8_chars s = [a] # ds @ [[CHR 0x0A]])
        \<and> is_digit a \<and> a \<noteq> CHR ''0'' \<and> list_all (is_d uni) ds
        \<and> length ds < int_max_str_digits
        \<and> k = int (digits_value (a # map (\<lambda>ch. hd (to_ascii uni ch)) ds))"
  then obtain a ds where c: "utf8_chars s = [a] # ds \<or> utf8_chars s = [a] # ds @ [[CHR 0x0A]]"
    "is_digit a" "a \<noteq> CHR ''0''" "list_all (is_d uni) ds" "length ds < int_max_str_digits"
    "k = int (digits_value (a # map (\<lambda>ch. hd (to_ascii uni ch)) ds))"
    by blast
  from c(1) show "string_to_int uni s = Some k"
  proof
    assume "utf8_chars s = [a] # ds"
    then have "utf8_chars s = [a] # ds @ []" by simp
    from string_to_int_numeral [OF this _ c(2,3,4)] c(5,6) show ?thesis by simp
  next
    assume "utf8_chars s = [a] # ds @ [[CHR 0x0A]]"
    from string_to_int_numeral [OF this _ c(2,3,4)] c(5,6) show ?thesis by simp
  qed
qed

lemma string_to_int_str_of_nat:
  assumes "0 < n" and "n < 10 ^ int_max_str_digits"
  shows "string_to_int uni (str_of_nat n) = Some (int n)"
proof -
  obtain a r where ar: "str_of_nat n = a # r"
    using str_of_nat_nonempty [of n] by (cases "str_of_nat n") auto
  have dig: "\<forall>c\<in>set (a # r). is_digit c" using str_of_nat_digits [of _ n] ar by simp
  have "utf8_chars (a # r) = map (\<lambda>c. [c]) (a # r)"
    using dig by (intro utf8_chars_ascii) (auto dest: is_digit_not_cont)
  then have u: "utf8_chars (str_of_nat n) = [a] # map (\<lambda>c. [c]) r @ []" by (simp only: ar) simp
  have z: "a \<noteq> CHR ''0''" using hd_str_of_nat [OF assms(1)] ar by simp
  have d: "list_all (is_d uni) (map (\<lambda>c. [c]) r)"
    using dig by (simp add: list_all_iff is_d_single)
  have "length (a # r) \<le> int_max_str_digits"
    using assms(2) length_str_of_nat [OF int_max_str_digits_pos, of n] ar by simp
  then have l: "length (map (\<lambda>c. [c]) r) < int_max_str_digits" by simp
  have v: "map (\<lambda>ch. hd (to_ascii uni ch)) (map (\<lambda>c. [c]) r) = r"
    by (induction r) (simp_all add: to_ascii_single)
  have "digits_value (a # r) = n" using digits_value_str_of_nat [of n] ar by simp
  with string_to_int_numeral [OF u _ _ z d, of ] dig l v show ?thesis by simp
qed

lemma string_to_int_Some:
  assumes "string_to_int uni s = Some k"
  shows "s \<noteq> [] \<and> is_digit (hd s) \<and> hd s \<noteq> CHR ''0'' \<and> 0 < k"
proof -
  from assms [unfolded string_to_int_iff] obtain a ds where
    c: "utf8_chars s = [a] # ds \<or> utf8_chars s = [a] # ds @ [[CHR 0x0A]]"
      "is_digit a" "a \<noteq> CHR ''0''"
      "k = int (digits_value (a # map (\<lambda>ch. hd (to_ascii uni ch)) ds))"
    by blast
  from c(1) have h: "s \<noteq> [] \<and> hd s = a" by (auto dest: utf8_chars_hd)
  have "0 < digit_val a" using c(2,3) by (rule digit_val_pos)
  also have "\<dots> \<le> digits_value (a # map (\<lambda>ch. hd (to_ascii uni ch)) ds)"
    using fold_digits_ge [of "digit_val a"] by (simp add: digits_value_def)
  finally have "0 < k" using c(4) by simp
  with h c(2,3) show ?thesis by simp
qed

lemma string_to_int_zero: "string_to_int uni ''0'' = None"
proof (cases "string_to_int uni ''0''")
  case None
  then show ?thesis .
next
  case (Some k)
  from string_to_int_Some [OF this] show ?thesis by simp
qed

subsection \<open>The checks of \<open>build_data_channel\<close> and \<open>run\<close>\<close>

lemma py_bind_Inl: "m w = (Inl e, w') \<Longrightarrow> py_bind m f w = (Inl e, w')"
  by (simp add: py_bind_def)

lemma py_bind_Inr: "m w = (Inr x, w') \<Longrightarrow> py_bind m f w = f x w'"
  by (simp add: py_bind_def)

lemma send_error_Inl: "\<exists>e w'. send_error error s w = (Inl e, w')"
  by (simp add: send_error_run)

lemma fst_send_error: "fst (send_error error s w) \<noteq> Inr x"
  by (simp add: send_error_run)

lemma space_not_in_str_of_nat: "CHR '' '' \<notin> set (str_of_nat n)"
proof
  assume "CHR '' '' \<in> set (str_of_nat n)"
  then have "is_digit (CHR '' '')" by (rule str_of_nat_digits)
  then show False by (simp add: is_digit_def)
qed

lemma receive_text_Inr:
  assumes "receive_text w = (Inr data, w1)"
  shows "inner ControlChannel 0 w = (Inr data, w1)"
proof (cases "inner ControlChannel 0 w")
  case (Pair r v)
  show ?thesis
  proof (cases r)
    case (Inl e)
    with Pair assms show ?thesis by (simp add: receive_text_def receive_message_def)
  next
    case (Inr d)
    with Pair assms show ?thesis
      by (auto simp: receive_text_def receive_message_def send_error_not_Inr split: if_splits)
  qed
qed

text \<open>The try block of lines 208 to 216 has no effect of its own: it accepts or hands over to \<open>send_error\<close>.\<close>

lemma parse_msglen_run:
  "parse_msglen uni data w =
     (case py_split CHR '' '' data of
        [begin, msglen] \<Rightarrow>
          (case string_to_int uni msglen of
             Some n \<Rightarrow> if begin = ''S'' then (Inr n, w)
                       else send_error (''invalid message: '' @ data @ '', expected S <msglen>'') ControlChannel w
           | None \<Rightarrow> send_error (''invalid message: '' @ data @ '', expected S <msglen>'') ControlChannel w)
      | _ \<Rightarrow> send_error (''invalid message: '' @ data @ '', expected S <msglen>'') ControlChannel w)"
  by (simp add: parse_msglen_def py_except_def py_raise_def py_return_def
      split: list.splits option.splits)

lemma parse_msglen_iff:
  "(parse_msglen uni data w = (Inr k, w')) =
     (w' = w \<and> (\<exists>field. data = ''S '' @ field \<and> CHR '' '' \<notin> set field
                   \<and> string_to_int uni field = Some k))"
proof -
  have "(parse_msglen uni data w = (Inr k, w')) =
          (w' = w \<and> (\<exists>field. py_split CHR '' '' data = [''S'', field] \<and> string_to_int uni field = Some k))"
    unfolding parse_msglen_run
    by (auto simp: send_error_not_Inr split: list.splits option.splits)
  then show ?thesis by (simp add: py_split_two)
qed

lemma parse_msglen_cases:
  "(\<exists>k. parse_msglen uni data w = (Inr k, w))
   \<or> (\<exists>e. fst (parse_msglen uni data w) = Inl e)
      \<and> parse_msglen uni data w
         = send_error (''invalid message: '' @ data @ '', expected S <msglen>'') ControlChannel w"
proof -
  obtain e v where "send_error (''invalid message: '' @ data @ '', expected S <msglen>'')
      ControlChannel w = (Inl e :: py_exc + int, v)"
    using send_error_Inl by blast
  then show ?thesis
    unfolding parse_msglen_run by (auto split: list.splits option.splits)
qed

lemma string_to_int_str_of_nat_limit:
  assumes "10 ^ int_max_str_digits \<le> n"
  shows "string_to_int uni (str_of_nat n) = None"
proof (cases "string_to_int uni (str_of_nat n)")
  case None
  then show ?thesis .
next
  case (Some k)
  from Some [unfolded string_to_int_iff] obtain a ds where
    c: "utf8_chars (str_of_nat n) = [a] # ds \<or> utf8_chars (str_of_nat n) = [a] # ds @ [[CHR 0x0A]]"
      "length ds < int_max_str_digits"
    by blast
  have u: "utf8_chars (str_of_nat n) = map (\<lambda>c. [c]) (str_of_nat n)"
    using str_of_nat_digits [of _ n] by (intro utf8_chars_ascii) (auto dest: is_digit_not_cont)
  have "\<not> length (str_of_nat n) \<le> int_max_str_digits"
    using assms length_str_of_nat [OF int_max_str_digits_pos, of n] by simp
  moreover from c(1) have "length (str_of_nat n) \<le> int_max_str_digits"
  proof
    assume "utf8_chars (str_of_nat n) = [a] # ds"
    then have "length (str_of_nat n) = Suc (length ds)" using u by (metis length_Cons length_map)
    with c(2) show ?thesis by simp
  next
    assume l: "utf8_chars (str_of_nat n) = [a] # ds @ [[CHR 0x0A]]"
    then have "[CHR 0x0A] \<in> set (map (\<lambda>c. [c]) (str_of_nat n))" using u by simp
    then have "CHR 0x0A \<in> set (str_of_nat n)" by auto
    then have "is_digit (CHR 0x0A)" by (rule str_of_nat_digits)
    then show ?thesis by (simp add: is_digit_def)
  qed
  ultimately show ?thesis by simp
qed

lemma confirmation_rejects:
  assumes "receive_text w = (Inr data, w1)"
    and "parse_msglen uni data w1 \<noteq> (Inr (int (length message)), w1)"
  shows "confirmation uni message dtoken w =
           send_error
             (case fst (parse_msglen uni data w1) of
                Inr msglen \<Rightarrow> ''wrong message length: '' @ str_of_int msglen @ '', expected: ''
                               @ str_of_nat (length message)
              | Inl e \<Rightarrow> ''invalid message: '' @ data @ '', expected S <msglen>'')
             ControlChannel w1"
proof -
  from parse_msglen_cases [of uni data w1] show ?thesis
  proof (elim disjE exE conjE)
    fix k
    assume p: "parse_msglen uni data w1 = (Inr k, w1)"
    with assms(2) have ne: "k \<noteq> int (length message)" by auto
    let ?err = "''wrong message length: '' @ str_of_int k @ '', expected: ''
                  @ str_of_nat (length message)"
    obtain e v where se: "send_error ?err ControlChannel w1 = (Inl e :: py_exc + unit, v)"
      using send_error_Inl by blast
    have "confirmation uni message dtoken w = (Inl e, v)"
      unfolding confirmation_def
      by (simp only: py_bind_Inr [of receive_text w data w1, OF assms(1)]
          py_bind_Inr [of "parse_msglen uni data" w1 k w1, OF p] ne
          py_bind_Inl [of "send_error ?err ControlChannel" w1 e v, OF se]
          not_False_eq_True if_True simp_thms)
    with se p show ?thesis by simp
  next
    fix e0
    let ?err = "''invalid message: '' @ data @ '', expected S <msglen>''"
    assume f: "fst (parse_msglen uni data w1) = Inl e0"
      and p: "parse_msglen uni data w1 = send_error ?err ControlChannel w1"
    obtain e v where se: "send_error ?err ControlChannel w1 = (Inl e :: py_exc + unit, v)"
      using send_error_Inl by blast
    then have si: "send_error ?err ControlChannel w1 = (Inl e :: py_exc + int, v)"
      by (simp add: send_error_run split: if_splits)
    with p have p': "parse_msglen uni data w1 = (Inl e, v)" by simp
    have "confirmation uni message dtoken w = (Inl e, v)"
      unfolding confirmation_def
      by (simp only: py_bind_Inr [of receive_text w data w1, OF assms(1)]
          py_bind_Inl [of "parse_msglen uni data" w1 e v, OF p'])
    with se f show ?thesis by simp
  qed
qed

lemma confirmation_empty_fails: "\<exists>e. fst (confirmation uni [] dtoken w) = Inl e"
proof (cases "receive_text w")
  case (Pair r w1)
  show ?thesis
  proof (cases r)
    case (Inl e)
    with Pair show ?thesis by (simp add: confirmation_def py_bind_def)
  next
    case (Inr data)
    have "parse_msglen uni data w1 \<noteq> (Inr (int (length ([] :: string))), w1)"
      using parse_msglen_iff [of uni data w1 0 w1] string_to_int_Some [of uni _ 0] by auto
    from confirmation_rejects [OF _ this, of w dtoken] Pair Inr show ?thesis
      by (cases "fst (confirmation uni [] dtoken w)") (simp_all add: fst_send_error)
  qed
qed

subsection \<open>The token on the data channel\<close>

text \<open>
  C3: with the control token \<open>token\<close> of step 4, the reply \<open>data\<close> of step 10 passes
  the check of lines 138 to 145 exactly when it is \<open>T\<close>, one space and the token, and the
  token holds no space. The token of step 4 is cut with \<open>split(b' ', 1)\<close> and may hold
  spaces; the check cuts with \<open>split(b' ')\<close>, so no reply passes for such a token.
\<close>

theorem C3_token_check:
  "(fst (check_token data token w) = Inr ()) = (data = ''T '' @ token \<and> CHR '' '' \<notin> set token)"
proof
  assume "data = ''T '' @ token \<and> CHR '' '' \<notin> set token"
  then have "py_split CHR '' '' data = [''T'', token]"
    using py_split_two [of "CHR '' ''" data "''T''" token] by simp
  then show "fst (check_token data token w) = Inr ()"
    by (simp add: check_token_def py_except_def py_return_def)
next
  assume a: "fst (check_token data token w) = Inr ()"
  have "py_split CHR '' '' data = [''T'', token]"
  proof (rule ccontr)
    assume n: "py_split CHR '' '' data \<noteq> [''T'', token]"
    have "fst (check_token data token w) \<noteq> Inr ()"
    proof (cases "py_split CHR '' '' data")
      case Nil
      then show ?thesis by (simp add: check_token_def py_except_def py_raise_def fst_send_error)
    next
      case (Cons b r)
      note c1 = this
      show ?thesis
      proof (cases r)
        case Nil
        with c1 show ?thesis by (simp add: check_token_def py_except_def py_raise_def fst_send_error)
      next
        case (Cons t r')
        with c1 n show ?thesis
          by (cases r'; cases "send_error (bytes_repr t) ServerSocket w :: (py_exc + unit) \<times> world")
            (auto simp: check_token_def py_except_def py_raise_def fst_send_error send_error_not_Inr
              split: sum.splits)
      qed
    qed
    with a show False by simp
  qed
  then show "data = ''T '' @ token \<and> CHR '' '' \<notin> set token"
    using py_split_two [of "CHR '' ''" data "''T''" token] by simp
qed

text \<open>
  The token \<open>a b\<close>, which step 4 takes from the reply \<open>S a b\<close>, is refused when the
  data channel presents \<open>T a b\<close>.
\<close>

theorem C3_token_check_witness:
  "fst (parse_token ''S'' ''S a b'' (start [] [] [] 0)) = Inr ''a b''
   \<and> fst (check_token ''T a b'' ''a b'' (start [] [] [] 0)) \<noteq> Inr ()"
proof -
  have "fst (parse_token ''S'' ''S a b'' (start [] [] [] 0)) = Inr ''a b''"
    by (simp add: parse_token_def py_except_def py_split1_def py_return_def)
  moreover have "fst (check_token ''T a b'' ''a b'' (start [] [] [] 0)) \<noteq> Inr ()"
    using C3_token_check [of "''T a b''" "''a b''" "start [] [] [] 0"] by simp
  ultimately show ?thesis by simp
qed

subsection \<open>The confirmation\<close>

text \<open>
  C5, the claim as stated: the reply \<open>S 0\<close> for the empty message does not pass.
  \<open>string_to_int\<close> gives \<open>None\<close> for \<open>0\<close>, and the client leaves with the error
  \<open>invalid message: S 0, expected S <msglen>\<close> before it compares any length.
\<close>

theorem C5_reply_S0_rejected:
  "string_to_int ascii_only ''0'' = None
   \<and> fst (confirmation ascii_only [] ''dtokABC'' (start [Recv ''3:S 0,''] [] [] 0)) = Inl (SystemExit None)
   \<and> stdout (snd (confirmation ascii_only [] ''dtokABC'' (start [Recv ''3:S 0,''] [] [] 0)))
       = [''Error: invalid message: S 0, expected S <msglen>'']
   \<and> sent (control_channel (snd (confirmation ascii_only [] ''dtokABC'' (start [Recv ''3:S 0,''] [] [] 0))))
       = [''43:E invalid message: S 0, expected S <msglen>,'']"
  by code_simp

text \<open>
  C5, amended: the reply is accepted exactly when it is \<open>S\<close>, one space and a field
  \<open>msglen\<close> of this form: one digit from 1 to 9, then decimal digits only (no sign, no
  leading zero; \<open>\d\<close> and \<open>int()\<close> take the decimal digits of every script), at most
  \<open>int_max_str_digits\<close> digits in all, and possibly one line feed at the very end; the
  length it reports is the decimal value of the digits. So every positive number below
  \<open>10 ^ int_max_str_digits\<close> is accepted in its decimal form and none from there on.
  The single digit \<open>0\<close> is not admitted: the reply \<open>S 0\<close> fails, and for the empty
  message the confirmation fails whatever the server replies.
\<close>

theorem C5_msglen_grammar:
  "(parse_msglen uni data w = (Inr k, w')) =
     (w' = w \<and>
      (\<exists>field a ds. data = ''S '' @ field \<and> CHR '' '' \<notin> set field
         \<and> (utf8_chars field = [a] # ds \<or> utf8_chars field = [a] # ds @ [[CHR 0x0A]])
         \<and> is_digit a \<and> a \<noteq> CHR ''0'' \<and> list_all (is_d uni) ds
         \<and> length ds < int_max_str_digits
         \<and> k = int (digits_value (a # map (\<lambda>ch. hd (to_ascii uni ch)) ds)))) \<and>
   (0 < n \<and> n < 10 ^ int_max_str_digits \<longrightarrow>
      parse_msglen uni (''S '' @ str_of_nat n) w = (Inr (int n), w)) \<and>
   (10 ^ int_max_str_digits \<le> n \<longrightarrow>
      (\<exists>e. fst (parse_msglen uni (''S '' @ str_of_nat n) w) = Inl e)) \<and>
   (\<exists>e. fst (parse_msglen uni ''S 0'' w) = Inl e) \<and>
   (\<exists>e. fst (confirmation uni [] dtoken w) = Inl e)"
proof -
  have a: "(parse_msglen uni data w = (Inr k, w')) =
     (w' = w \<and>
      (\<exists>field a ds. data = ''S '' @ field \<and> CHR '' '' \<notin> set field
         \<and> (utf8_chars field = [a] # ds \<or> utf8_chars field = [a] # ds @ [[CHR 0x0A]])
         \<and> is_digit a \<and> a \<noteq> CHR ''0'' \<and> list_all (is_d uni) ds
         \<and> length ds < int_max_str_digits
         \<and> k = int (digits_value (a # map (\<lambda>ch. hd (to_ascii uni ch)) ds))))"
    unfolding parse_msglen_iff string_to_int_iff by blast
  have b: "parse_msglen uni (''S '' @ str_of_nat n) w = (Inr (int n), w)"
    if "0 < n \<and> n < 10 ^ int_max_str_digits"
    using that space_not_in_str_of_nat [of n] string_to_int_str_of_nat [of n uni]
    unfolding parse_msglen_iff by blast
  have rejected: "\<exists>e. fst (parse_msglen uni (''S '' @ field) w) = Inl e"
    if "string_to_int uni field = None" for field
  proof (cases "parse_msglen uni (''S '' @ field) w")
    case (Pair r v)
    show ?thesis
    proof (cases r)
      case (Inl e)
      with Pair show ?thesis by simp
    next
      case (Inr k)
      with Pair that parse_msglen_iff [of uni "''S '' @ field" w k v] show ?thesis by auto
    qed
  qed
  have c: "\<exists>e. fst (parse_msglen uni (''S '' @ str_of_nat n) w) = Inl e"
    if "10 ^ int_max_str_digits \<le> n"
    using that by (intro rejected string_to_int_str_of_nat_limit)
  have d: "\<exists>e. fst (parse_msglen uni ''S 0'' w) = Inl e"
    using rejected [OF string_to_int_zero] by simp
  from a b c d confirmation_empty_fails [of uni dtoken w] show ?thesis by blast
qed

theorem C5_msglen_grammar_witness:
  "parse_msglen ascii_only ''S 5'' (start [] [] [] 0) = (Inr 5, start [] [] [] 0)"
proof -
  have s: "str_of_nat 5 = ''5''" by code_simp
  have "(5::nat) < 10 ^ int_max_str_digits" by (rule below_digit_limit) simp
  with C5_msglen_grammar [of ascii_only _ "start [] [] [] 0" _ _ 5] show ?thesis
    by (simp add: s)
qed

text \<open>
  C6, the claim as stated: the reply \<open>S 0\<close> reports a length that differs from the five
  bytes of \<open>hello\<close>, and the client does not fail with the error of a wrong length: it
  leaves with \<open>invalid message: S 0, expected S <msglen>\<close>, since \<open>0\<close> is no length it
  reads.
\<close>

theorem C6_reported_zero_is_invalid_message:
  "fst (confirmation ascii_only ''hello'' ''dtokABC'' (start [Recv ''3:S 0,''] [] [] 0))
     = Inl (SystemExit None)
   \<and> stdout (snd (confirmation ascii_only ''hello'' ''dtokABC'' (start [Recv ''3:S 0,''] [] [] 0)))
       = [''Error: invalid message: S 0, expected S <msglen>'']
   \<and> stdout (snd (confirmation ascii_only ''hello'' ''dtokABC'' (start [Recv ''3:S 0,''] [] [] 0)))
       \<noteq> [''Error: wrong message length: 0, expected: 5'']"
  by code_simp

text \<open>
  C6, amended: when the reply of the confirmation is not an accepted report of the byte
  length of the message, the client fails and the frame that forwards the token (\<open>C\<close>,
  a space and the data token) is not among the frames it sends from then on. The error is
  \<open>wrong message length\<close> when the reply is \<open>S <msglen>\<close> with a length that the client
  reads, and \<open>invalid message ... expected S <msglen>\<close> when it is not (the length \<open>0\<close>
  for one). The client sends the frame of that error, prints the error, closes the
  control socket and exits; when that send raises, nothing at all is sent.
\<close>

theorem C6_length_mismatch:
  assumes "receive_text w = (Inr data, w1)"
    and "parse_msglen uni data w1 \<noteq> (Inr (int (length message)), w1)"
  shows "\<exists>e w' reason new.
       confirmation uni message dtoken w = (Inl e, w')
     \<and> reason = (case fst (parse_msglen uni data w1) of
                   Inr msglen \<Rightarrow> ''wrong message length: '' @ str_of_int msglen @ '', expected: ''
                                  @ str_of_nat (length message)
                 | Inl x \<Rightarrow> ''invalid message: '' @ data @ '', expected S <msglen>'')
     \<and> sent (control_channel w') = sent (control_channel w) @ new
     \<and> token_frame dtoken \<notin> set new
     \<and> (if send_fails (control_channel w)
        then e = OSError \<and> new = [] \<and> stdout w' = stdout w
        else e = SystemExit None
           \<and> new = [string_to_netstring (''E '' @ reason)]
           \<and> stdout w' = stdout w @ [''Error: '' @ reason]
           \<and> closed (control_channel w'))"
proof -
  define reason where "reason =
    (case fst (parse_msglen uni data w1) of
       Inr msglen \<Rightarrow> ''wrong message length: '' @ str_of_int msglen @ '', expected: ''
                      @ str_of_nat (length message)
     | Inl x \<Rightarrow> ''invalid message: '' @ data @ '', expected S <msglen>'')"
  from inner_Inr [OF receive_text_Inr [OF assms(1)]]
  have k: "\<not> closed (control_channel w1)" "sent (control_channel w1) = sent (control_channel w)"
    "send_fails (control_channel w1) = send_fails (control_channel w)" "stdout w1 = stdout w"
    by (simp_all add: get_sock_def)
  have c: "confirmation uni message dtoken w = send_error reason ControlChannel w1"
    unfolding reason_def using assms by (rule confirmation_rejects)
  have "token_frame dtoken = string_to_netstring (''C '' @ dtoken)"
    by (simp add: token_frame_def string_to_netstring_def)
  moreover have "string_to_netstring (''C '' @ dtoken) \<noteq> string_to_netstring (''E '' @ reason)"
    using netstring_inject [of "''C '' @ dtoken" "''E '' @ reason"] by auto
  ultimately have t: "token_frame dtoken \<noteq> string_to_netstring (''E '' @ reason)" by simp
  show ?thesis
  proof (cases "send_fails (control_channel w)")
    case True
    with k c have "confirmation uni message dtoken w = (Inl OSError, w1)"
      by (simp add: send_error_run get_sock_def)
    with True k show ?thesis unfolding reason_def [symmetric] by simp
  next
    case False
    with k c have "confirmation uni message dtoken w =
      (Inl (SystemExit None),
       set_sock ControlChannel ((control_channel w1)\<lparr>sent := sent (control_channel w1) @ [string_to_netstring (''E '' @ reason)], closed := True\<rparr>)
         (w1\<lparr>stdout := stdout w1 @ [''Error: '' @ reason]\<rparr>))"
      by (simp add: send_error_run get_sock_def)
    with False k t show ?thesis unfolding reason_def [symmetric] by (simp add: set_sock_def)
  qed
qed

theorem C6_length_mismatch_witness:
  "\<exists>w'. confirmation ascii_only ''hello'' ''dtokABC'' (start [Recv ''3:S 4,''] [] [] 0)
          = (Inl (SystemExit None), w')
      \<and> sent (control_channel w') = [''38:E wrong message length: 4, expected: 5,'']
      \<and> stdout w' = [''Error: wrong message length: 4, expected: 5'']
      \<and> token_frame ''dtokABC'' \<notin> set (sent (control_channel w'))"
proof -
  let ?w = "start [Recv ''3:S 4,''] [] [] 0"
  have r: "receive_text ?w = (Inr ''S 4'', start [] [] [] 0)"
    by code_simp
  have p: "parse_msglen ascii_only ''S 4'' (start [] [] [] 0) = (Inr 4, start [] [] [] 0)"
    by code_simp
  then have n: "parse_msglen ascii_only ''S 4'' (start [] [] [] 0)
      \<noteq> (Inr (int (length ''hello'')), start [] [] [] 0)"
    by simp
  have v: "''wrong message length: '' @ str_of_int 4 @ '', expected: ''
             @ str_of_nat (length ''hello'') = ''wrong message length: 4, expected: 5''"
    by code_simp
  have f: "string_to_netstring (''E '' @ ''wrong message length: 4, expected: 5'')
             = ''38:E wrong message length: 4, expected: 5,''"
    by code_simp
  have d: "''Error: '' @ ''wrong message length: 4, expected: 5''
             = ''Error: wrong message length: 4, expected: 5''"
    by simp
  have s: "sent (control_channel ?w) = []" "stdout ?w = []" "send_fails (control_channel ?w) = False"
    by (simp_all add: start_def new_sock_def)
  from C6_length_mismatch [OF r n, of "''dtokABC''"] obtain e w' reason new where
    h: "confirmation ascii_only ''hello'' ''dtokABC'' ?w = (Inl e, w')"
      "reason = (case fst (parse_msglen ascii_only ''S 4'' (start [] [] [] 0)) of
                   Inr msglen \<Rightarrow> ''wrong message length: '' @ str_of_int msglen @ '', expected: ''
                                  @ str_of_nat (length ''hello'')
                 | Inl x \<Rightarrow> ''invalid message: '' @ ''S 4'' @ '', expected S <msglen>'')"
      "sent (control_channel w') = sent (control_channel ?w) @ new"
      "token_frame ''dtokABC'' \<notin> set new"
      "if send_fails (control_channel ?w)
        then e = OSError \<and> new = [] \<and> stdout w' = stdout ?w
        else e = SystemExit None
           \<and> new = [string_to_netstring (''E '' @ reason)]
           \<and> stdout w' = stdout ?w @ [''Error: '' @ reason]
           \<and> closed (control_channel w')"
    by blast
  from h(2) have rs: "reason = ''wrong message length: 4, expected: 5''"
    by (simp only: p fst_conv sum.case v)
  from h(5) have t: "e = SystemExit None"
    "new = [''38:E wrong message length: 4, expected: 5,'']"
    "stdout w' = [''Error: wrong message length: 4, expected: 5'']"
    by (simp_all only: s if_False rs f d append_Nil)
  from h(1,3,4) t s(1) show ?thesis by simp
qed

subsection \<open>Messages with the tag \<open>E\<close>\<close>

text \<open>
  C4: on the message \<open>E foo bar\<close> the receiver reports \<open>foo\<close> only, the second field of
  \<open>message.split(b' ')\<close>, not the whole remainder \<open>foo bar\<close>: it sends the frame
  \<open>5:E foo,\<close>, prints \<open>Error: foo\<close>, closes the socket and exits.
\<close>

theorem C4_error_text_is_second_field:
  "inner ControlChannel 0 (start [Recv ''9:E foo bar,'', Timeout] [] [] 0)
   = (Inl (SystemExit None),
      (start [] [] [] 0)\<lparr>control_channel :=
          \<lparr>inbox = [], sent = [''5:E foo,''], closed = True, send_fails = False\<rparr>,
        stdout := [''Error: foo'']\<rparr>)"
  by code_simp

text \<open>
  C10: the message that is the single byte \<open>E\<close> makes \<open>message.split(b' ')[1]\<close> raise
  \<open>IndexError\<close>: the receiver neither returns the message nor takes its error path
  (nothing is sent, nothing printed, the socket stays open).
\<close>

theorem C10_bare_E_raises_IndexError:
  "inner ControlChannel 0 (start [Recv ''1:E,'', Timeout] [] [] 0)
   = (Inl IndexError, start [] [] [] 0)"
  by code_simp

subsection \<open>The residual buffer\<close>

text \<open>
  C7: one read delivers \<open>3:abc,2:xy,\<close>. The first call of \<open>receive_message\<close> on the
  channel returns \<open>abc\<close> and leaves \<open>2:xy,\<close> in the buffer of that channel; the next call
  returns \<open>xy\<close> from the buffer although the socket delivers nothing more (its \<open>recv\<close>
  times out), and leaves the buffer empty. The same holds on the data channel.
\<close>

theorem C7_batched_frames:
  "inner ControlChannel 0 (start [Recv ''3:abc,2:xy,'', Timeout] [] [] 0)
     = (Inr ''abc'', (start [] [] [] 0)\<lparr>control_netstrings := ''2:xy,''\<rparr>)
   \<and> inner ControlChannel 0 ((start [] [] [] 0)\<lparr>control_netstrings := ''2:xy,''\<rparr>)
     = (Inr ''xy'', start [] [] [] 0)
   \<and> inner ServerSocket 1 (start [] [Recv ''3:abc,2:xy,'', Timeout] [] 0)
     = (Inr ''abc'', (start [] [] [] 0)\<lparr>data_netstrings := ''2:xy,''\<rparr>)
   \<and> inner ServerSocket 1 ((start [] [] [] 0)\<lparr>data_netstrings := ''2:xy,''\<rparr>)
     = (Inr ''xy'', start [] [] [] 0)"
  by code_simp

subsection \<open>Leaving on an error\<close>

text \<open>
  C8: a frame without a colon is a validation failure. The client sends its \<open>E\<close> frame,
  prints the diagnostic and closes the socket, but \<open>send_error\<close> ends with \<open>sys.exit()\<close>:
  the status of the process is 0. Only the path for an empty buffer, which has the same
  four steps written out, ends with \<open>sys.exit(1)\<close>.
\<close>

theorem C8_send_error_exits_with_status_0:
  "fst (inner ControlChannel 0 (start [Recv ''3abc,''] [] [] 0)) = Inl (SystemExit None)
   \<and> exit_status (SystemExit None) = 0
   \<and> closed (control_channel (snd (inner ControlChannel 0 (start [Recv ''3abc,''] [] [] 0))))
   \<and> length (sent (control_channel (snd (inner ControlChannel 0 (start [Recv ''3abc,''] [] [] 0))))) = 1
   \<and> length (stdout (snd (inner ControlChannel 0 (start [Recv ''3abc,''] [] [] 0)))) = 1
   \<and> fst (inner ControlChannel 0 (start [] [] [] 0)) = Inl (SystemExit (Some 1))
   \<and> exit_status (SystemExit (Some 1)) = 1"
  by code_simp

subsection \<open>Every failure path\<close>

lemma get_sock_other:
  "s' \<noteq> s \<Longrightarrow> get_sock s' (set_sock s k w) = get_sock s' w"
  by (cases s; cases s') (simp_all add: get_sock_def set_sock_def)



lemma quiet_on_trans: "quiet_on s a b \<Longrightarrow> quiet_on s b c \<Longrightarrow> quiet_on s a c"
  by (auto simp: quiet_on_def)

lemma quiet_trans: "quiet a b \<Longrightarrow> quiet b c \<Longrightarrow> quiet a c"
  by (auto simp: quiet_def intro: quiet_on_trans)





lemma succeeds_bind:
  assumes "succeeds R m Q" and "\<And>x. Q x \<Longrightarrow> succeeds R (f x) Q'"
    and "\<And>a b c. R a b \<Longrightarrow> R b c \<Longrightarrow> R a c"
  shows "succeeds R (py_bind m f) Q'"
  unfolding succeeds_def
proof (intro allI impI)
  fix w y w'
  assume b: "py_bind m f w = (Inr y, w')"
  show "R w w' \<and> Q' y"
  proof (cases "m w")
    case (Pair r w1)
    show ?thesis
    proof (cases r)
      case (Inl e1)
      with Pair b show ?thesis by (simp add: py_bind_def)
    next
      case (Inr x)
      with Pair b have f: "f x w1 = (Inr y, w')" by (simp add: py_bind_def)
      from Pair Inr assms(1) have "R w w1" "Q x" by (auto simp: succeeds_def)
      with f assms(2) [of x] assms(3) [of w w1 w'] show ?thesis by (auto simp: succeeds_def)
    qed
  qed
qed


lemma succeeds_bind_quiet:
  assumes "succeeds quiet m Q" and "\<And>x. Q x \<Longrightarrow> succeeds quiet (f x) Q'"
  shows "succeeds quiet (py_bind m f) Q'"
proof (rule succeeds_bind [where R = quiet and Q = Q])
  show "succeeds quiet m Q" by (rule assms(1))
  show "succeeds quiet (f x) Q'" if "Q x" for x using that by (rule assms(2))
  show "quiet a c" if "quiet a b" "quiet b c" for a b c using that by (rule quiet_trans)
qed

lemma succeeds_weaken:
  assumes "succeeds R m Q" and "\<And>w w'. R w w' \<Longrightarrow> R' w w'" and "\<And>x. Q x \<Longrightarrow> Q' x"
  shows "succeeds R' m Q'"
  using assms by (auto simp: succeeds_def)

lemma succeeds_if:
  "(c \<Longrightarrow> succeeds R a Q) \<Longrightarrow> (\<not> c \<Longrightarrow> succeeds R b Q) \<Longrightarrow> succeeds R (if c then a else b) Q"
  by simp

lemma fails_if:
  "(c \<Longrightarrow> fails F a) \<Longrightarrow> (\<not> c \<Longrightarrow> fails F b) \<Longrightarrow> fails F (if c then a else b)"
  by simp
















lemma send_error_after_read:
  assumes "\<not> closed (get_sock s w)"
    and "v = set_sock s ((get_sock s w)\<lparr>inbox := evs\<rparr>) w
       \<or> v = (set_sock s ((get_sock s w)\<lparr>inbox := evs\<rparr>) w)\<lparr>control_netstrings := rest\<rparr>
       \<or> v = (set_sock s ((get_sock s w)\<lparr>inbox := evs\<rparr>) w)\<lparr>data_netstrings := rest\<rparr>"
  shows "send_error reason s v =
           (if send_fails (get_sock s w) then (Inl OSError, v)
            else (Inl (SystemExit None),
                  set_sock s ((get_sock s v)\<lparr>sent := sent (get_sock s w) @ [string_to_netstring (''E '' @ reason)],
                      closed := True\<rparr>)
                    (v\<lparr>stdout := stdout w @ [''Error: '' @ reason]\<rparr>)))"
  using assms by (auto simp: send_error_run)









text \<open>The other steps of the client.\<close>

lemma fails_weaken:
  "fails F m \<Longrightarrow> (\<And>w e w'. F w e w' \<Longrightarrow> F' w e w') \<Longrightarrow> fails F' m"
  by (auto simp: fails_def)

































end
